theory Spec2Isabelle
  imports Complex_Main "HOL-Library.Word"
begin

section \<open>GPR2PIC: the GSSI DZT decoder \<open>read_gssi_dzt_final\<close> of MAIN.py\<close>

text \<open>
  The decoder opens a file, reads its 1024-byte header, unpacks four fields at fixed
  offsets, validates them, derives the number of complete traces from the size of the
  data region, reads the samples with \<open>numpy.fromfile\<close> and reshapes them in Fortran
  order.  Every exit other than the last line returns \<open>(None, None)\<close>; the exits differ
  only in what they print.  The model returns the sequence of effects (file operations
  and printed messages) together with the returned pair.
\<close>

subsection \<open>Bytes and Python values\<close>

type_synonym byte = "8 word"

text \<open>The exceptions that the modelled part of the program can raise.\<close>

datatype exn = OSError | StructError | ValueError | ZeroDivisionError | OverflowError

text \<open>
  A Python \<open>float\<close> (IEEE-754 binary64): a NaN, the two infinities, \<open>-0.0\<close>, or a finite
  value with \<open>Fin 0\<close> for \<open>+0.0\<close>.  The sign of a NaN is not modelled.
\<close>

datatype pyfloat = NaN | PosInf | NegInf | NegZero | Fin rat

text \<open>\<open>x <= 0\<close> and \<open>x > 0\<close> on floats: every comparison with a NaN is false.\<close>

fun float_le_zero :: "pyfloat \<Rightarrow> bool" where
  "float_le_zero NaN = False"
| "float_le_zero PosInf = False"
| "float_le_zero NegInf = True"
| "float_le_zero NegZero = True"
| "float_le_zero (Fin q) = (q \<le> 0)"

fun float_gt_zero :: "pyfloat \<Rightarrow> bool" where
  "float_gt_zero NaN = False"
| "float_gt_zero PosInf = True"
| "float_gt_zero NegInf = False"
| "float_gt_zero NegZero = False"
| "float_gt_zero (Fin q) = (0 < q)"

text \<open>The sign bit and the magnitude of a float that is not a NaN, and back.\<close>

fun sign_bit :: "pyfloat \<Rightarrow> bool" where
  "sign_bit NaN = False"
| "sign_bit PosInf = False"
| "sign_bit NegInf = True"
| "sign_bit NegZero = True"
| "sign_bit (Fin q) = (q < 0)"

fun is_inf :: "pyfloat \<Rightarrow> bool" where
  "is_inf PosInf = True"
| "is_inf NegInf = True"
| "is_inf x = False"

fun magnitude :: "pyfloat \<Rightarrow> rat" where
  "magnitude (Fin q) = \<bar>q\<bar>"
| "magnitude x = 0"

definition signed_inf :: "bool \<Rightarrow> pyfloat" where
  "signed_inf neg = (if neg then NegInf else PosInf)"

definition signed_fin :: "bool \<Rightarrow> rat \<Rightarrow> pyfloat" where
  "signed_fin neg r = (if neg then (if r = 0 then NegZero else Fin (- r)) else Fin r)"

text \<open>Python's \<open>xs[i:j]\<close> for \<open>0 \<le> i \<le> j\<close>: it never raises and stops at the end.\<close>

definition py_slice :: "'a list \<Rightarrow> nat \<Rightarrow> nat \<Rightarrow> 'a list" where
  "py_slice xs i j = take (j - i) (drop i xs)"

subsection \<open>\<open>struct.unpack\<close>\<close>

text \<open>The unsigned value of a little-endian byte string.\<close>

fun le_unsigned :: "byte list \<Rightarrow> int" where
  "le_unsigned [] = 0"
| "le_unsigned (b # bs) = uint b + 256 * le_unsigned bs"

text \<open>Two's complement reading of a little-endian byte string of any width.\<close>

definition le_signed :: "byte list \<Rightarrow> int" where
  "le_signed bs =
     (let u = le_unsigned bs; n = 8 * length bs
      in if 2 ^ (n - 1) \<le> u then u - 2 ^ n else u)"

text \<open>\<open>struct.unpack('<h', b)[0]\<close> and \<open>struct.unpack('>h', b)[0]\<close>: the buffer must
  hold exactly two bytes.\<close>

definition struct_unpack_h_le :: "byte list \<Rightarrow> exn + int" where
  "struct_unpack_h_le b = (if length b = 2 then Inr (le_signed b) else Inl StructError)"

definition struct_unpack_h_be :: "byte list \<Rightarrow> exn + int" where
  "struct_unpack_h_be b = (if length b = 2 then Inr (le_signed (rev b)) else Inl StructError)"

text \<open>
  The value of an IEEE-754 binary32 bit pattern, as the binary64 that \<open>struct.unpack\<close>
  returns: the conversion is exact.
\<close>

definition pow2 :: "int \<Rightarrow> rat" where
  "pow2 k = (if 0 \<le> k then 2 ^ nat k else 1 / 2 ^ nat (- k))"

definition float32_of_bits :: "int \<Rightarrow> pyfloat" where
  "float32_of_bits u =
     (let neg = (u div 2 ^ 31 = 1);
          e = (u div 2 ^ 23) mod 256;
          m = u mod 2 ^ 23
      in if e = 255 then (if m = 0 then signed_inf neg else NaN)
         else if e = 0 then signed_fin neg (of_int m * pow2 (- 149))
         else signed_fin neg (of_int (2 ^ 23 + m) * pow2 (e - 150)))"

definition struct_unpack_f_le :: "byte list \<Rightarrow> exn + pyfloat" where
  "struct_unpack_f_le b =
     (if length b = 4 then Inr (float32_of_bits (le_unsigned b)) else Inl StructError)"

subsection \<open>Float division\<close>

text \<open>Rounding a rational to the nearest integer, ties to even.\<close>

definition round_half_even :: "rat \<Rightarrow> int" where
  "round_half_even r =
     (let f = \<lfloor>r\<rfloor>; d = r - of_int f
      in if d < 1 / 2 then f
         else if 1 / 2 < d then f + 1
         else if even f then f else f + 1)"

text \<open>\<open>ilog2 q\<close> is the \<open>e\<close> with \<open>2 ^ e \<le> q < 2 ^ (e + 1)\<close>, for \<open>q > 0\<close>.\<close>

function int_log2 :: "int \<Rightarrow> int" where
  "int_log2 n = (if n < 2 then 0 else 1 + int_log2 (n div 2))"
  by auto
termination
  by (relation "measure nat") auto

declare int_log2.simps [simp del]

definition ilog2 :: "rat \<Rightarrow> int" where
  "ilog2 q =
     (let (a, b) = quotient_of q;
          g = int_log2 a - int_log2 b
      in if pow2 g \<le> q then g else g - 1)"

text \<open>
  The binary64 nearest to a non-negative rational (round to nearest, ties to even,
  gradual underflow): with \<open>2 ^ e \<le> q < 2 ^ (e + 1)\<close> the result is a multiple \<open>m * 2 ^ p\<close> of
  the spacing \<open>2 ^ p\<close> of the doubles there.  It is \<open>None\<close> when the result overflows,
  which is when it reaches \<open>2 ^ 1024\<close>.
\<close>

definition round_double :: "rat \<Rightarrow> rat option" where
  "round_double q =
     (if q = 0 then Some 0
      else let e = ilog2 q;
               p = max e (- 1022) - 52;
               m = round_half_even (q / pow2 p)
           in if 1024 \<le> e \<or> (e = 1023 \<and> m = 2 ^ 53) then None
              else Some (of_int m * pow2 p))"

text \<open>\<open>float(n)\<close> for an \<open>int\<close>: correctly rounded, \<open>OverflowError\<close> beyond the range.\<close>

definition int_to_float :: "int \<Rightarrow> exn + pyfloat" where
  "int_to_float n =
     (case round_double (of_int \<bar>n\<bar>) of
        None \<Rightarrow> Inl OverflowError
      | Some r \<Rightarrow> Inr (signed_fin (n < 0) r))"

text \<open>The C division of two doubles with a nonzero divisor.\<close>

definition float_div :: "pyfloat \<Rightarrow> pyfloat \<Rightarrow> pyfloat" where
  "float_div x y =
     (let neg = (sign_bit x \<noteq> sign_bit y)
      in if x = NaN \<or> y = NaN then NaN
         else if is_inf x then (if is_inf y then NaN else signed_inf neg)
         else if is_inf y then signed_fin neg 0
         else case round_double (magnitude x / magnitude y) of
                None \<Rightarrow> signed_inf neg
              | Some r \<Rightarrow> signed_fin neg r)"

text \<open>
  \<open>n / y\<close> for an \<open>int\<close> \<open>n\<close> and a \<open>float\<close> \<open>y\<close>: the integer is converted first, then a
  zero divisor (of either sign) raises \<open>ZeroDivisionError\<close>.
\<close>

definition int_truediv_float :: "int \<Rightarrow> pyfloat \<Rightarrow> exn + pyfloat" where
  "int_truediv_float n y =
     (case int_to_float n of
        Inl e \<Rightarrow> Inl e
      | Inr x \<Rightarrow> (if y = Fin 0 \<or> y = NegZero then Inl ZeroDivisionError
                 else Inr (float_div x y)))"

subsection \<open>\<open>numpy.fromfile\<close> and \<open>reshape\<close>\<close>

text \<open>
  \<open>np.fromfile(f, dtype, count)\<close> on the bytes from the file position on: items of
  \<open>itemsize\<close> bytes, little-endian signed, at most \<open>count\<close> of them.  When the file ends
  early the array is shorter and nothing is raised.
\<close>

fun np_fromfile :: "byte list \<Rightarrow> nat \<Rightarrow> nat \<Rightarrow> int list" where
  "np_fromfile bs itemsize 0 = []"
| "np_fromfile bs itemsize (Suc n) =
     (if length bs < itemsize then []
      else le_signed (take itemsize bs) # np_fromfile (drop itemsize bs) itemsize n)"

text \<open>A two-dimensional array: its shape and its rows.\<close>

record ndarray =
  shape :: "nat \<times> nat"
  rows :: "int list list"

text \<open>
  \<open>raw.reshape((r, c), order='F')\<close> of a one-dimensional array: the first index runs
  fastest, and a size that does not match raises \<open>ValueError\<close>.
\<close>

definition reshape_F :: "int list \<Rightarrow> nat \<times> nat \<Rightarrow> exn + ndarray" where
  "reshape_F raw sh =
     (case sh of (r, c) \<Rightarrow>
        if length raw \<noteq> r * c then Inl ValueError
        else Inr \<lparr>shape = (r, c),
                  rows = map (\<lambda>s. map (\<lambda>t. raw ! (t * r + s)) [0..<c]) [0..<r]\<rparr>)"

subsection \<open>The decoder\<close>

record header_info =
  samples_per_trace :: int
  bits_per_sample :: int
  scans_per_meter :: pyfloat
  trace_count :: int
  total_length_m :: pyfloat

text \<open>The observable effects, in order: the file operations and the printed lines.\<close>

datatype event =
    File_read nat
  | File_seek_end
  | File_tell
  | File_seek nat
  | Np_fromfile nat int
  | Print_header_short
  | Print_identified int
  | Print_header_params int int pyfloat
  | Print_invalid_header
  | Print_trace_count_zero
  | Print_using_default pyfloat
  | Print_data_read
  | Print_traces int pyfloat
  | Print_critical exn

type_synonym result = "event list \<times> (ndarray option \<times> header_info option)"

text \<open>
  An expression that may raise inside the \<open>try\<close> block: the handler prints the
  exception and returns \<open>(None, None)\<close>; otherwise the block goes on with the value.
\<close>

definition try_block :: "exn + 'a \<Rightarrow> event list \<Rightarrow> ('a \<Rightarrow> result) \<Rightarrow> result" where
  "try_block r evs k =
     (case r of
        Inl e \<Rightarrow> (evs @ [Print_critical e], (None, None))
      | Inr v \<Rightarrow> k v)"

text \<open>
  The file system maps a path to the bytes of the file there; opening a path without a
  file raises \<open>OSError\<close>.
\<close>

definition read_gssi_dzt_final ::
  "(string \<Rightarrow> byte list option) \<Rightarrow> string \<Rightarrow> pyfloat \<Rightarrow> result" where
  "read_gssi_dzt_final fs file_path default_scans_per_meter =
     try_block (case fs file_path of None \<Rightarrow> Inl OSError | Some c \<Rightarrow> Inr c) [] (\<lambda>f.
     let header_data = take 1024 f;
         ev0 = [File_read 1024]
     in if length header_data < 1024 then (ev0 @ [Print_header_short], (None, None))
     else
     try_block (struct_unpack_h_be (py_slice header_data 51 53)) ev0 (\<lambda>num_channels.
     let ev1 = ev0 @ [Print_identified num_channels] in
     try_block (struct_unpack_h_le (py_slice header_data 4 6)) ev1 (\<lambda>samples_per_trace.
     try_block (struct_unpack_h_le (py_slice header_data 6 8)) ev1 (\<lambda>bits_per_sample.
     try_block (struct_unpack_f_le (py_slice header_data 40 44)) ev1 (\<lambda>scans_per_meter.
     let ev2 = ev1 @ [Print_header_params samples_per_trace bits_per_sample scans_per_meter]
     in if samples_per_trace \<le> 0 \<or> bits_per_sample \<notin> set [8, 16, 32]
        then (ev2 @ [Print_invalid_header], (None, None))
     else
     let data_start_position = 1024;
         ev3 = ev2 @ [File_seek_end, File_tell];
         data_size = int (length f) - int data_start_position;
         bytes_per_sample = bits_per_sample div 8;
         denominator = samples_per_trace * bytes_per_sample;
         total_traces = data_size div denominator
     in if total_traces \<le> 0 then (ev3 @ [Print_trace_count_zero], (None, None))
     else
     let (ev4, scans_per_meter) =
           (if float_le_zero scans_per_meter
            then (ev3 @ [Print_using_default default_scans_per_meter], default_scans_per_meter)
            else (ev3, scans_per_meter));
         itemsize = (if bits_per_sample = 16 then 2 else 4);
         count = total_traces * samples_per_trace;
         ev5 = ev4 @ [File_seek data_start_position, Np_fromfile itemsize count];
         raw_data = np_fromfile (drop data_start_position f) itemsize (nat count)
     in
     try_block (reshape_F raw_data (nat samples_per_trace, nat total_traces)) ev5 (\<lambda>radar_data_matrix.
     let ev6 = ev5 @ [Print_data_read] in
     try_block (int_truediv_float total_traces scans_per_meter) ev6 (\<lambda>length_m.
     let header_info = \<lparr>samples_per_trace = samples_per_trace,
                        bits_per_sample = bits_per_sample,
                        scans_per_meter = scans_per_meter,
                        trace_count = total_traces,
                        total_length_m = length_m\<rparr>
     in (ev6 @ [Print_traces total_traces length_m],
         (Some radar_data_matrix, Some header_info)))))))))"

text \<open>
  The four header expressions of the source (lines 21 to 31), on the bytes of the file,
  the number of traces of line 49, and the effects up to the read of the data.
\<close>

abbreviation hdr_channels :: "byte list \<Rightarrow> exn + int" where
  "hdr_channels f \<equiv> struct_unpack_h_be (py_slice (take 1024 f) 51 53)"

abbreviation hdr_samples :: "byte list \<Rightarrow> exn + int" where
  "hdr_samples f \<equiv> struct_unpack_h_le (py_slice (take 1024 f) 4 6)"

abbreviation hdr_bits :: "byte list \<Rightarrow> exn + int" where
  "hdr_bits f \<equiv> struct_unpack_h_le (py_slice (take 1024 f) 6 8)"

abbreviation hdr_scans :: "byte list \<Rightarrow> exn + pyfloat" where
  "hdr_scans f \<equiv> struct_unpack_f_le (py_slice (take 1024 f) 40 44)"

abbreviation traces_of :: "byte list \<Rightarrow> int \<Rightarrow> int \<Rightarrow> int" where
  "traces_of f S B \<equiv> (int (length f) - 1024) div (S * (B div 8))"

abbreviation header_events :: "int \<Rightarrow> int \<Rightarrow> int \<Rightarrow> pyfloat \<Rightarrow> event list" where
  "header_events ch S B spm \<equiv>
     [File_read 1024, Print_identified ch, Print_header_params S B spm]"

abbreviation data_events ::
  "int \<Rightarrow> int \<Rightarrow> int \<Rightarrow> pyfloat \<Rightarrow> pyfloat \<Rightarrow> nat \<Rightarrow> int \<Rightarrow> event list" where
  "data_events ch S B spm d w n \<equiv>
     header_events ch S B spm @ [File_seek_end, File_tell] @
     (if float_le_zero spm then [Print_using_default d] else []) @
     [File_seek 1024, Np_fromfile w n]"

subsection \<open>A synthetic recording\<close>

text \<open>
  A 1024-byte header that holds the given bytes at the offsets 4, 6, 40 and 51 and
  zeros everywhere else, and a file system with one file.
\<close>

definition synthetic_header :: "byte list \<Rightarrow> byte list \<Rightarrow> byte list \<Rightarrow> byte list \<Rightarrow> byte list" where
  "synthetic_header samples bits scans channels =
     replicate 4 0 @ samples @ bits @ replicate 32 0 @ scans @ replicate 7 0 @ channels @
     replicate 971 0"

definition one_file :: "string \<Rightarrow> byte list \<Rightarrow> string \<Rightarrow> byte list option" where
  "one_file name bytes = (\<lambda>path. if path = name then Some bytes else None)"

text \<open>
  Recordings used as concrete inputs: four samples per trace of 16 bits at 100 scans
  per meter with three traces and three trailing bytes; a header with 12 bits per
  sample; a data region shorter than one trace; an 8-bit recording; a header whose scans
  per meter is a NaN; and a 32-bit recording whose scans per meter is \<open>-0.0\<close>.
\<close>

definition recording_4x3 :: "byte list" where
  "recording_4x3 =
     synthetic_header [4, 0] [16, 0] [0, 0, 0xC8, 0x42] [0, 1] @
     [1, 0, 2, 0, 3, 0, 4, 0, 5, 0, 6, 0, 7, 0, 8, 0, 9, 0, 10, 0, 11, 0, 0xFF, 0xFF, 7, 7, 7]"

definition recording_bad_bits :: "byte list" where
  "recording_bad_bits = synthetic_header [4, 0] [12, 0] [0, 0, 0xC8, 0x42] [0, 1] @ [1, 2, 3]"

definition recording_short_data :: "byte list" where
  "recording_short_data =
     synthetic_header [4, 0] [16, 0] [0, 0, 0xC8, 0x42] [0, 1] @ [1, 2, 3, 4, 5, 6, 7]"

definition recording_8bit :: "byte list" where
  "recording_8bit = synthetic_header [2, 0] [8, 0] [0, 0, 0xC8, 0x42] [0, 1] @ [1, 2, 3, 4]"

definition recording_nan_scans :: "byte list" where
  "recording_nan_scans = synthetic_header [1, 0] [16, 0] [0, 0, 0xC0, 0x7F] [0, 1] @ [0xFF, 0xFF]"

definition recording_zero_scans :: "byte list" where
  "recording_zero_scans =
     synthetic_header [1, 0] [32, 0] [0, 0, 0, 0x80] [0, 1] @
     [0xFE, 0xFF, 0xFF, 0xFF, 1, 0, 0, 0, 9]"

subsection \<open>Bytes as machine words\<close>

lemma byte_bounds: "0 \<le> uint (a::byte)" "uint (a::byte) < 256"
  using uint_lt2p [of a] by simp_all

lemma uint_cat2: "uint (word_cat b a :: 16 word) = uint (a::byte) + 256 * uint (b::byte)"
proof -
  have t: "take_bit 16 (uint a + 256 * uint b) = uint a + 256 * uint b"
    using byte_bounds [of a] byte_bounds [of b] by (intro take_bit_int_eq_self) auto
  have "uint (word_cat b a :: 16 word) = take_bit 16 (concat_bit 8 (uint a) (uint b))"
    unfolding word_cat_eq' uint_word_of_int_eq by simp
  also have "concat_bit 8 (uint a) (uint b) = uint a + 256 * uint b"
    using byte_bounds [of a] by (simp add: concat_bit_eq push_bit_eq_mult take_bit_int_eq_self)
  finally show ?thesis using t by simp
qed

lemma uint_cat4:
  "uint (word_cat (word_cat d c :: 16 word) (word_cat b a :: 16 word) :: 32 word) =
   uint (a::byte) + 256 * (uint (b::byte) + 256 * (uint (c::byte) + 256 * uint (d::byte)))"
proof -
  let ?lo = "word_cat b a :: 16 word" and ?hi = "word_cat d c :: 16 word"
  have lo: "0 \<le> uint ?lo" "uint ?lo < 65536" using uint_lt2p [of ?lo] by simp_all
  have hi: "0 \<le> uint ?hi" "uint ?hi < 65536" using uint_lt2p [of ?hi] by simp_all
  have t: "take_bit 32 (uint ?lo + 65536 * uint ?hi) = uint ?lo + 65536 * uint ?hi"
    using lo hi by (intro take_bit_int_eq_self) auto
  have "uint (word_cat ?hi ?lo :: 32 word) = take_bit 32 (concat_bit 16 (uint ?lo) (uint ?hi))"
    unfolding word_cat_eq' [of ?hi ?lo] uint_word_of_int_eq by simp
  also have "concat_bit 16 (uint ?lo) (uint ?hi) = uint ?lo + 65536 * uint ?hi"
    using lo by (simp add: concat_bit_eq push_bit_eq_mult take_bit_int_eq_self)
  finally have "uint (word_cat ?hi ?lo :: 32 word) = uint ?lo + 65536 * uint ?hi"
    using t by simp
  then show ?thesis by (simp add: uint_cat2)
qed

lemma sint16_uint: "sint (w :: 16 word) = (if 32768 \<le> uint w then uint w - 65536 else uint w)"
proof -
  have b: "0 \<le> uint w" "uint w < 65536"
    using uint_lt2p [of w] by simp_all
  have s: "sint w = take_bit 16 (uint w + 32768) - 32768"
    by (simp add: sint_uint signed_take_bit_eq_take_bit_shift)
  show ?thesis
  proof (cases "32768 \<le> uint w")
    case True
    have "take_bit 16 (uint w + 32768) = (uint w - 32768 + 65536) mod 65536"
      by (simp add: take_bit_eq_mod ac_simps)
    also have "\<dots> = (uint w - 32768) mod 65536"
      by (rule mod_add_self2)
    also have "\<dots> = uint w - 32768"
      using True b by (intro mod_pos_pos_trivial) auto
    finally show ?thesis using True s by simp
  next
    case False
    have "take_bit 16 (uint w + 32768) = uint w + 32768"
      using False b by (intro take_bit_int_eq_self) auto
    then show ?thesis using False s by simp
  qed
qed

lemma le_signed_2: "le_signed [a, b] = sint (word_cat b a :: 16 word)"
  by (simp add: le_signed_def sint16_uint uint_cat2 Let_def)

lemma le_unsigned_4:
  "le_unsigned [a, b, c, d] =
   uint (word_cat (word_cat d c :: 16 word) (word_cat b a :: 16 word) :: 32 word)"
  by (simp add: uint_cat4)

subsection \<open>Slices of the header\<close>

lemma py_slice_take: "j \<le> n \<Longrightarrow> py_slice (take n xs) i j = py_slice xs i j"
  by (simp add: py_slice_def drop_take min_def)

lemma py_slice_2: "Suc i < length xs \<Longrightarrow> py_slice xs i (Suc (Suc i)) = [xs ! i, xs ! Suc i]"
  by (simp add: py_slice_def take_Suc_conv_app_nth Cons_nth_drop_Suc [symmetric])

lemma py_slice_4:
  "i + 3 < length xs \<Longrightarrow>
   py_slice xs i (i + 4) = [xs ! i, xs ! (i + 1), xs ! (i + 2), xs ! (i + 3)]"
  by (simp add: py_slice_def take_Suc_conv_app_nth Cons_nth_drop_Suc [symmetric] numeral_eq_Suc)

lemma header_unpack:
  assumes "1024 \<le> length f"
  shows "struct_unpack_h_be (py_slice (take 1024 f) 51 53) = Inr (le_signed [f ! 52, f ! 51])"
    and "struct_unpack_h_le (py_slice (take 1024 f) 4 6) = Inr (le_signed [f ! 4, f ! 5])"
    and "struct_unpack_h_le (py_slice (take 1024 f) 6 8) = Inr (le_signed [f ! 6, f ! 7])"
    and "struct_unpack_f_le (py_slice (take 1024 f) 40 44) =
           Inr (float32_of_bits (le_unsigned [f ! 40, f ! 41, f ! 42, f ! 43]))"
proof -
  have a: "py_slice (take 1024 f) 51 53 = [f ! 51, f ! 52]"
    using assms py_slice_2 [of 51 f] by (simp add: py_slice_take eval_nat_numeral)
  have b: "py_slice (take 1024 f) 4 6 = [f ! 4, f ! 5]"
    using assms py_slice_2 [of 4 f] by (simp add: py_slice_take eval_nat_numeral)
  have c: "py_slice (take 1024 f) 6 8 = [f ! 6, f ! 7]"
    using assms py_slice_2 [of 6 f] by (simp add: py_slice_take eval_nat_numeral)
  have d: "py_slice (take 1024 f) 40 44 = [f ! 40, f ! 41, f ! 42, f ! 43]"
    using assms py_slice_4 [of 40 f] by (simp add: py_slice_take)
  show "struct_unpack_h_be (py_slice (take 1024 f) 51 53) = Inr (le_signed [f ! 52, f ! 51])"
    by (simp add: a struct_unpack_h_be_def)
  show "struct_unpack_h_le (py_slice (take 1024 f) 4 6) = Inr (le_signed [f ! 4, f ! 5])"
    by (simp add: b struct_unpack_h_le_def)
  show "struct_unpack_h_le (py_slice (take 1024 f) 6 8) = Inr (le_signed [f ! 6, f ! 7])"
    by (simp add: c struct_unpack_h_le_def)
  show "struct_unpack_f_le (py_slice (take 1024 f) 40 44) =
           Inr (float32_of_bits (le_unsigned [f ! 40, f ! 41, f ! 42, f ! 43]))"
    by (simp only: d struct_unpack_f_le_def) simp
qed

subsection \<open>The exits before the data is read\<close>

lemma read_missing:
  "fs p = None \<Longrightarrow> read_gssi_dzt_final fs p d = ([Print_critical OSError], (None, None))"
  by (simp add: read_gssi_dzt_final_def try_block_def)

lemma read_short:
  "fs p = Some f \<Longrightarrow> length f < 1024 \<Longrightarrow>
   read_gssi_dzt_final fs p d = ([File_read 1024, Print_header_short], (None, None))"
  by (simp add: read_gssi_dzt_final_def try_block_def Let_def)

lemma read_invalid:
  assumes "fs p = Some f" "1024 \<le> length f"
    and "struct_unpack_h_be (py_slice (take 1024 f) 51 53) = Inr ch"
    and "struct_unpack_h_le (py_slice (take 1024 f) 4 6) = Inr S"
    and "struct_unpack_h_le (py_slice (take 1024 f) 6 8) = Inr B"
    and "struct_unpack_f_le (py_slice (take 1024 f) 40 44) = Inr spm"
    and "S \<le> 0 \<or> B \<notin> {8, 16, 32}"
  shows "read_gssi_dzt_final fs p d =
           ([File_read 1024, Print_identified ch, Print_header_params S B spm,
             Print_invalid_header], (None, None))"
  using assms by (simp add: read_gssi_dzt_final_def try_block_def Let_def)

lemma read_empty:
  assumes "fs p = Some f" "1024 \<le> length f"
    and "struct_unpack_h_be (py_slice (take 1024 f) 51 53) = Inr ch"
    and "struct_unpack_h_le (py_slice (take 1024 f) 4 6) = Inr S"
    and "struct_unpack_h_le (py_slice (take 1024 f) 6 8) = Inr B"
    and "struct_unpack_f_le (py_slice (take 1024 f) 40 44) = Inr spm"
    and "0 < S" "B \<in> {8, 16, 32}"
    and "(int (length f) - 1024) div (S * (B div 8)) \<le> 0"
  shows "read_gssi_dzt_final fs p d =
           ([File_read 1024, Print_identified ch, Print_header_params S B spm,
             File_seek_end, File_tell, Print_trace_count_zero], (None, None))"
  using assms by (simp add: read_gssi_dzt_final_def try_block_def Let_def)

subsection \<open>What \<open>np_fromfile\<close> reads\<close>

lemma length_np_fromfile:
  "0 < w \<Longrightarrow> length (np_fromfile bs w n) = min n (length bs div w)"
proof (induction n arbitrary: bs)
  case 0
  then show ?case by simp
next
  case (Suc n)
  show ?case
  proof (cases "length bs < w")
    case True
    then show ?thesis by simp
  next
    case False
    then have "length bs div w = Suc ((length bs - w) div w)"
      using Suc.prems by (simp add: le_div_geq)
    then show ?thesis using False Suc by simp
  qed
qed

lemma nth_np_fromfile:
  "0 < w \<Longrightarrow> i < n \<Longrightarrow> i < length bs div w \<Longrightarrow>
   np_fromfile bs w n ! i = le_signed (py_slice bs (i * w) (i * w + w))"
proof (induction n arbitrary: bs i)
  case 0
  then show ?case by simp
next
  case (Suc n)
  have ge: "w \<le> length bs"
    using Suc.prems by (metis div_less not_le not_less_zero)
  show ?case
  proof (cases i)
    case 0
    then show ?thesis using ge by (simp add: py_slice_def)
  next
    case (Suc j)
    have "length bs div w = Suc ((length bs - w) div w)"
      using ge Suc.prems by (simp add: le_div_geq)
    then have "j < length (drop w bs) div w"
      using Suc.prems Suc by simp
    then have "np_fromfile (drop w bs) w n ! j = le_signed (py_slice (drop w bs) (j * w) (j * w + w))"
      using Suc.IH [of j "drop w bs"] Suc.prems Suc by simp
    then show ?thesis
      using ge Suc by (simp add: py_slice_def add.commute)
  qed
qed

lemma np_fromfile_take:
  "n * w \<le> k \<Longrightarrow> np_fromfile (take k bs) w n = np_fromfile bs w n"
proof (induction n arbitrary: bs k)
  case 0
  then show ?case by simp
next
  case (Suc n)
  then have k: "w \<le> k" "n * w \<le> k - w" by auto
  have "np_fromfile (take (k - w) (drop w bs)) w n = np_fromfile (drop w bs) w n"
    using Suc.IH [OF k(2)] .
  then show ?case
    using k by (auto simp: drop_take min_def)
qed

subsection \<open>The data path\<close>

lemma read_data:
  assumes "fs p = Some f" "1024 \<le> length f"
    and "hdr_channels f = Inr ch" "hdr_samples f = Inr S" "hdr_bits f = Inr B"
    and "hdr_scans f = Inr spm"
    and "0 < S" "B \<in> {8, 16, 32}" "0 < traces_of f S B"
  shows "read_gssi_dzt_final fs p d =
           try_block
             (reshape_F (np_fromfile (drop 1024 f) (if B = 16 then 2 else 4)
                           (nat (traces_of f S B * S)))
                (nat S, nat (traces_of f S B)))
             (data_events ch S B spm d (if B = 16 then 2 else 4) (traces_of f S B * S))
             (\<lambda>m. try_block
                    (int_truediv_float (traces_of f S B) (if float_le_zero spm then d else spm))
                    (data_events ch S B spm d (if B = 16 then 2 else 4) (traces_of f S B * S) @
                       [Print_data_read])
                    (\<lambda>l. (data_events ch S B spm d (if B = 16 then 2 else 4)
                             (traces_of f S B * S) @
                             [Print_data_read, Print_traces (traces_of f S B) l],
                          (Some m,
                           Some \<lparr>samples_per_trace = S, bits_per_sample = B,
                                 scans_per_meter = (if float_le_zero spm then d else spm),
                                 trace_count = traces_of f S B, total_length_m = l\<rparr>))))"
proof (cases "float_le_zero spm")
  case True
  then show ?thesis
    using assms by (auto simp: read_gssi_dzt_final_def try_block_def Let_def split: sum.splits)
next
  case False
  then show ?thesis
    using assms by (auto simp: read_gssi_dzt_final_def try_block_def Let_def split: sum.splits)
qed

lemma full_traces_fit:
  fixes s k n :: nat
  assumes "0 < k"
  shows "n div (s * k) * s \<le> n div k"
proof -
  have "n div (s * k) * (s * k) \<le> n"
    by (rule div_times_less_eq_dividend)
  then have "n div (s * k) * s * k \<le> n"
    by (simp add: mult.assoc)
  then show ?thesis
    using assms by (simp add: less_eq_div_iff_mult_less_eq)
qed

lemma byte_traces_short:
  fixes s n :: nat
  assumes "0 < s" "0 < n div s"
  shows "n div 4 < n div s * s"
proof -
  let ?t = "n div s"
  have "n < s + ?t * s"
    using assms(1) by (rule dividend_less_div_times)
  moreover have "s \<le> ?t * s"
    using assms(2) by simp
  ultimately have "n < ?t * s * 4" by linarith
  then show ?thesis
    by (simp add: div_less_iff_less_mult)
qed

lemma nat_trace_count:
  assumes "1024 \<le> length f" "0 < S" "0 < k"
  shows "nat ((int (length f) - 1024) div (S * int k)) = (length f - 1024) div (nat S * k)"
proof -
  have "int (length f) - 1024 = int (length f - 1024)"
    using assms(1) by simp
  moreover have "S * int k = int (nat S * k)"
    using assms(2) by simp
  ultimately show ?thesis
    by (simp only: zdiv_int [symmetric] nat_int)
qed

lemma raw_length_full:
  assumes "1024 \<le> length f" "0 < S" "B = 16 \<or> B = 32"
    and "T = (int (length f) - 1024) div (S * (B div 8))" "0 \<le> T"
  shows "length (np_fromfile (drop 1024 f) (if B = 16 then 2 else 4) (nat (T * S))) = nat S * nat T"
proof -
  define k :: nat where "k = (if B = 16 then 2 else 4)"
  have k: "0 < k" "B div 8 = int k"
    using assms(3) by (auto simp: k_def)
  have T: "nat T = (length f - 1024) div (nat S * k)"
    using nat_trace_count [OF assms(1,2) k(1)] assms(4) k(2) by simp
  have "nat T * nat S \<le> (length f - 1024) div k"
    unfolding T using k(1) by (rule full_traces_fit)
  moreover have "nat (T * S) = nat T * nat S"
    using assms(5) by (simp add: nat_mult_distrib)
  ultimately show ?thesis
    using k(1) by (simp add: length_np_fromfile k_def [symmetric] mult.commute)
qed

lemma raw_length_byte:
  assumes "1024 \<le> length f" "0 < S"
    and "T = (int (length f) - 1024) div (S * (8 div 8))" "0 < T"
  shows "length (np_fromfile (drop 1024 f) 4 (nat (T * S))) \<noteq> nat S * nat T"
proof -
  have T: "nat T = (length f - 1024) div (nat S * 1)"
    using nat_trace_count [OF assms(1,2), of 1] assms(3) by simp
  have "0 < nat S" "0 < (length f - 1024) div nat S"
    using assms(2,4) T by simp_all
  then have "(length f - 1024) div 4 < nat T * nat S"
    using byte_traces_short [of "nat S" "length f - 1024"] T by simp
  moreover have "nat (T * S) = nat T * nat S"
    using assms(4) by (simp add: nat_mult_distrib)
  ultimately show ?thesis
    by (simp add: length_np_fromfile mult.commute)
qed

lemma read_byte_width:
  assumes "fs p = Some f" "1024 \<le> length f"
    and "hdr_channels f = Inr ch" "hdr_samples f = Inr S" "hdr_bits f = Inr 8"
    and "hdr_scans f = Inr spm"
    and "0 < S" "0 < traces_of f S 8"
  shows "read_gssi_dzt_final fs p d =
           (data_events ch S 8 spm d 4 (traces_of f S 8 * S) @ [Print_critical ValueError],
            (None, None))"
proof -
  have mem: "(8::int) \<in> {8, 16, 32}"
    by simp
  have "length (np_fromfile (drop 1024 f) 4 (nat (traces_of f S 8 * S))) \<noteq>
          nat S * nat (traces_of f S 8)"
    using assms(2,7) _ assms(8) by (rule raw_length_byte) simp
  then have "reshape_F (np_fromfile (drop 1024 f) 4 (nat (traces_of f S 8 * S)))
               (nat S, nat (traces_of f S 8)) = Inl ValueError"
    by (simp add: reshape_F_def)
  then show ?thesis
    using read_data [where fs = fs and p = p and d = d, OF assms(1-7) mem assms(8)]
    by (simp add: try_block_def)
qed

lemma read_full_width:
  assumes "fs p = Some f" "1024 \<le> length f"
    and "hdr_channels f = Inr ch" "hdr_samples f = Inr S" "hdr_bits f = Inr B"
    and "hdr_scans f = Inr spm"
    and "0 < S" "B = 16 \<or> B = 32" "0 < traces_of f S B"
  shows "read_gssi_dzt_final fs p d =
           (case int_truediv_float (traces_of f S B) (if float_le_zero spm then d else spm) of
              Inl e \<Rightarrow>
                (data_events ch S B spm d (nat (B div 8)) (traces_of f S B * S) @
                   [Print_data_read, Print_critical e], (None, None))
            | Inr l \<Rightarrow>
                (data_events ch S B spm d (nat (B div 8)) (traces_of f S B * S) @
                   [Print_data_read, Print_traces (traces_of f S B) l],
                 (Some \<lparr>shape = (nat S, nat (traces_of f S B)),
                        rows = map (\<lambda>s. map (\<lambda>t.
                                 np_fromfile (drop 1024 f) (nat (B div 8))
                                   (nat (traces_of f S B * S)) ! (t * nat S + s))
                               [0..<nat (traces_of f S B)]) [0..<nat S]\<rparr>,
                  Some \<lparr>samples_per_trace = S, bits_per_sample = B,
                        scans_per_meter = (if float_le_zero spm then d else spm),
                        trace_count = traces_of f S B, total_length_m = l\<rparr>)))"
proof -
  have w: "(if B = 16 then 2 else 4) = nat (B div 8)"
    using assms(8) by auto
  have "length (np_fromfile (drop 1024 f) (if B = 16 then 2 else 4) (nat (traces_of f S B * S))) =
          nat S * nat (traces_of f S B)"
    using assms(2,7,8) refl by (rule raw_length_full) (use assms(9) in simp)
  then have "reshape_F (np_fromfile (drop 1024 f) (nat (B div 8)) (nat (traces_of f S B * S)))
               (nat S, nat (traces_of f S B)) =
             Inr \<lparr>shape = (nat S, nat (traces_of f S B)),
                  rows = map (\<lambda>s. map (\<lambda>t.
                                 np_fromfile (drop 1024 f) (nat (B div 8))
                                   (nat (traces_of f S B * S)) ! (t * nat S + s))
                               [0..<nat (traces_of f S B)]) [0..<nat S]\<rparr>"
    by (simp add: reshape_F_def w)
  moreover have mem: "B \<in> {8, 16, 32}"
    using assms(8) by auto
  ultimately show ?thesis
    using read_data [where fs = fs and p = p and d = d, OF assms(1-7) mem assms(9)]
    by (simp add: try_block_def w split: sum.splits)
qed

subsection \<open>The six ways through the decoder\<close>

lemma read_cases:
  assumes missing: "fs p = None \<Longrightarrow> P"
    and short: "\<And>f. fs p = Some f \<Longrightarrow> length f < 1024 \<Longrightarrow> P"
    and invalid: "\<And>f ch S B spm. fs p = Some f \<Longrightarrow> 1024 \<le> length f \<Longrightarrow>
        hdr_channels f = Inr ch \<Longrightarrow> hdr_samples f = Inr S \<Longrightarrow> hdr_bits f = Inr B \<Longrightarrow>
        hdr_scans f = Inr spm \<Longrightarrow> S \<le> 0 \<or> B \<notin> {8, 16, 32} \<Longrightarrow> P"
    and empty: "\<And>f ch S B spm. fs p = Some f \<Longrightarrow> 1024 \<le> length f \<Longrightarrow>
        hdr_channels f = Inr ch \<Longrightarrow> hdr_samples f = Inr S \<Longrightarrow> hdr_bits f = Inr B \<Longrightarrow>
        hdr_scans f = Inr spm \<Longrightarrow> 0 < S \<Longrightarrow> B \<in> {8, 16, 32} \<Longrightarrow>
        traces_of f S B \<le> 0 \<Longrightarrow> P"
    and byte: "\<And>f ch S spm. fs p = Some f \<Longrightarrow> 1024 \<le> length f \<Longrightarrow>
        hdr_channels f = Inr ch \<Longrightarrow> hdr_samples f = Inr S \<Longrightarrow> hdr_bits f = Inr 8 \<Longrightarrow>
        hdr_scans f = Inr spm \<Longrightarrow> 0 < S \<Longrightarrow> 0 < traces_of f S 8 \<Longrightarrow> P"
    and full: "\<And>f ch S B spm. fs p = Some f \<Longrightarrow> 1024 \<le> length f \<Longrightarrow>
        hdr_channels f = Inr ch \<Longrightarrow> hdr_samples f = Inr S \<Longrightarrow> hdr_bits f = Inr B \<Longrightarrow>
        hdr_scans f = Inr spm \<Longrightarrow> 0 < S \<Longrightarrow> B = 16 \<or> B = 32 \<Longrightarrow>
        0 < traces_of f S B \<Longrightarrow> P"
  shows P
proof (cases "fs p")
  case None
  then show ?thesis by (rule missing)
next
  case (Some f)
  show ?thesis
  proof (cases "length f < 1024")
    case True
    with Some show ?thesis by (rule short)
  next
    case False
    then have len: "1024 \<le> length f" by simp
    note h = header_unpack [OF len]
    let ?S = "le_signed [f ! 4, f ! 5]" and ?B = "le_signed [f ! 6, f ! 7]"
    consider "?S \<le> 0 \<or> ?B \<notin> {8, 16, 32}"
      | "0 < ?S" "?B \<in> {8, 16, 32}" "traces_of f ?S ?B \<le> 0"
      | "0 < ?S" "?B = 8" "0 < traces_of f ?S ?B"
      | "0 < ?S" "?B = 16 \<or> ?B = 32" "0 < traces_of f ?S ?B"
      by fastforce
    then show ?thesis
    proof cases
      case 1
      show ?thesis by (rule invalid [OF Some len h 1])
    next
      case 2
      show ?thesis by (rule empty [OF Some len h 2])
    next
      case 3
      show ?thesis
        using byte [OF Some len h(1,2) _ h(4) 3(1)] h(3) 3(2,3) by simp
    next
      case 4
      show ?thesis by (rule full [OF Some len h 4])
    qed
  qed
qed

subsection \<open>Facts about the synthetic recording\<close>

lemma synthetic_header_fields:
  assumes "length s = 2" "length b = 2" "length sc = 4" "length c = 2"
  shows "length (synthetic_header s b sc c @ dat) = 1024 + length dat"
    and "take 1024 (synthetic_header s b sc c @ dat) = synthetic_header s b sc c"
    and "drop 1024 (synthetic_header s b sc c @ dat) = dat"
    and "hdr_samples (synthetic_header s b sc c @ dat) = Inr (le_signed s)"
    and "hdr_bits (synthetic_header s b sc c @ dat) = Inr (le_signed b)"
    and "hdr_scans (synthetic_header s b sc c @ dat) = Inr (float32_of_bits (le_unsigned sc))"
    and "hdr_channels (synthetic_header s b sc c @ dat) = Inr (le_signed (rev c))"
proof -
  have len: "length (synthetic_header s b sc c) = 1024"
    using assms by (simp add: synthetic_header_def)
  show "length (synthetic_header s b sc c @ dat) = 1024 + length dat"
    using len by simp
  show t: "take 1024 (synthetic_header s b sc c @ dat) = synthetic_header s b sc c"
    using len by simp
  show "drop 1024 (synthetic_header s b sc c @ dat) = dat"
    using len by simp
  have "py_slice (synthetic_header s b sc c) 4 6 = s"
    using assms by (simp add: synthetic_header_def py_slice_def)
  then show "hdr_samples (synthetic_header s b sc c @ dat) = Inr (le_signed s)"
    unfolding t using assms by (simp add: struct_unpack_h_le_def)
  have "py_slice (synthetic_header s b sc c) 6 8 = b"
    using assms by (simp add: synthetic_header_def py_slice_def)
  then show "hdr_bits (synthetic_header s b sc c @ dat) = Inr (le_signed b)"
    unfolding t using assms by (simp add: struct_unpack_h_le_def)
  have "py_slice (synthetic_header s b sc c) 40 44 = sc"
    using assms by (simp add: synthetic_header_def py_slice_def)
  then show "hdr_scans (synthetic_header s b sc c @ dat) = Inr (float32_of_bits (le_unsigned sc))"
    unfolding t using assms by (simp add: struct_unpack_f_le_def)
  have "py_slice (synthetic_header s b sc c) 51 53 = c"
    using assms by (simp add: synthetic_header_def py_slice_def)
  then show "hdr_channels (synthetic_header s b sc c @ dat) = Inr (le_signed (rev c))"
    unfolding t using assms by (simp add: struct_unpack_h_be_def)
qed

lemma le_signed_examples:
  "le_signed [4, 0] = 4" "le_signed [16, 0] = 16" "le_signed [1, 0] = 1" "le_signed [0xFF, 0xFF] = - 1"
  "le_signed [12, 0] = 12" "le_signed [8, 0] = 8" "le_signed [2, 0] = 2" "le_signed [32, 0] = 32"
  "le_signed [0xFE, 0xFF, 0xFF, 0xFF] = - 2"
  by (simp_all add: le_signed_def)

lemma float32_examples:
  "float32_of_bits 0x42C80000 = Fin 100"
  "float32_of_bits 0x7FC00000 = NaN"
  "float32_of_bits 0x80000000 = NegZero"
  "float32_of_bits 0 = Fin 0"
  by (simp_all add: float32_of_bits_def pow2_def Let_def signed_fin_def signed_inf_def)

lemma recording_bad_bits_fields:
  "length recording_bad_bits = 1027"
  "drop 1024 recording_bad_bits = [1, 2, 3]"
  "hdr_channels recording_bad_bits = Inr 1"
  "hdr_samples recording_bad_bits = Inr 4"
  "hdr_bits recording_bad_bits = Inr 12"
  "hdr_scans recording_bad_bits = Inr (Fin 100)"
  unfolding recording_bad_bits_def
  by (subst synthetic_header_fields; simp add: le_signed_examples float32_examples)+

lemma recording_short_data_fields:
  "length recording_short_data = 1031"
  "drop 1024 recording_short_data = [1, 2, 3, 4, 5, 6, 7]"
  "hdr_channels recording_short_data = Inr 1"
  "hdr_samples recording_short_data = Inr 4"
  "hdr_bits recording_short_data = Inr 16"
  "hdr_scans recording_short_data = Inr (Fin 100)"
  unfolding recording_short_data_def
  by (subst synthetic_header_fields; simp add: le_signed_examples float32_examples)+

lemma recording_4x3_fields:
  "length recording_4x3 = 1051"
  "drop 1024 recording_4x3 =
     [1, 0, 2, 0, 3, 0, 4, 0, 5, 0, 6, 0, 7, 0, 8, 0, 9, 0, 10, 0, 11, 0, 0xFF, 0xFF, 7, 7, 7]"
  "hdr_channels recording_4x3 = Inr 1"
  "hdr_samples recording_4x3 = Inr 4"
  "hdr_bits recording_4x3 = Inr 16"
  "hdr_scans recording_4x3 = Inr (Fin 100)"
  unfolding recording_4x3_def
  by (subst synthetic_header_fields; simp add: le_signed_examples float32_examples)+

lemma recording_8bit_fields:
  "length recording_8bit = 1028"
  "drop 1024 recording_8bit = [1, 2, 3, 4]"
  "hdr_channels recording_8bit = Inr 1"
  "hdr_samples recording_8bit = Inr 2"
  "hdr_bits recording_8bit = Inr 8"
  "hdr_scans recording_8bit = Inr (Fin 100)"
  unfolding recording_8bit_def
  by (subst synthetic_header_fields; simp add: le_signed_examples float32_examples)+

lemma recording_nan_scans_fields:
  "length recording_nan_scans = 1026"
  "drop 1024 recording_nan_scans = [0xFF, 0xFF]"
  "hdr_channels recording_nan_scans = Inr 1"
  "hdr_samples recording_nan_scans = Inr 1"
  "hdr_bits recording_nan_scans = Inr 16"
  "hdr_scans recording_nan_scans = Inr NaN"
  unfolding recording_nan_scans_def
  by (subst synthetic_header_fields; simp add: le_signed_examples float32_examples)+

lemma recording_zero_scans_fields:
  "length recording_zero_scans = 1033"
  "drop 1024 recording_zero_scans = [0xFE, 0xFF, 0xFF, 0xFF, 1, 0, 0, 0, 9]"
  "hdr_channels recording_zero_scans = Inr 1"
  "hdr_samples recording_zero_scans = Inr 1"
  "hdr_bits recording_zero_scans = Inr 32"
  "hdr_scans recording_zero_scans = Inr (NegZero)"
  unfolding recording_zero_scans_def
  by (subst synthetic_header_fields; simp add: le_signed_examples float32_examples)+

subsection \<open>Successful runs\<close>

lemma read_successE:
  assumes "read_gssi_dzt_final fs p d = (evs, (Some m, Some h))"
  obtains f ch S B spm l where
    "fs p = Some f" "1024 \<le> length f"
    "hdr_channels f = Inr ch" "hdr_samples f = Inr S" "hdr_bits f = Inr B"
    "hdr_scans f = Inr spm"
    "0 < S" "B = 16 \<or> B = 32" "0 < traces_of f S B"
    "int_truediv_float (traces_of f S B) (if float_le_zero spm then d else spm) = Inr l"
    "evs = data_events ch S B spm d (nat (B div 8)) (traces_of f S B * S) @
             [Print_data_read, Print_traces (traces_of f S B) l]"
    "m = \<lparr>shape = (nat S, nat (traces_of f S B)),
           rows = map (\<lambda>s. map (\<lambda>t.
                    np_fromfile (drop 1024 f) (nat (B div 8))
                      (nat (traces_of f S B * S)) ! (t * nat S + s))
                  [0..<nat (traces_of f S B)]) [0..<nat S]\<rparr>"
    "h = \<lparr>samples_per_trace = S, bits_per_sample = B,
           scans_per_meter = (if float_le_zero spm then d else spm),
           trace_count = traces_of f S B, total_length_m = l\<rparr>"
proof (rule read_cases [of fs p])
  assume "fs p = None"
  then show ?thesis using assms by (simp add: read_missing)
next
  fix f assume "fs p = Some f" "length f < 1024"
  then show ?thesis using assms by (simp add: read_short)
next
  fix f ch S B spm
  assume "fs p = Some f" "1024 \<le> length f" "hdr_channels f = Inr ch" "hdr_samples f = Inr S"
    "hdr_bits f = Inr B" "hdr_scans f = Inr spm" "S \<le> 0 \<or> B \<notin> {8, 16, 32}"
  then have "read_gssi_dzt_final fs p d =
      (header_events ch S B spm @ [Print_invalid_header], (None, None))"
    by (simp add: read_invalid)
  then show ?thesis using assms by simp
next
  fix f ch S B spm
  assume "fs p = Some f" "1024 \<le> length f" "hdr_channels f = Inr ch" "hdr_samples f = Inr S"
    "hdr_bits f = Inr B" "hdr_scans f = Inr spm" "0 < S" "B \<in> {8, 16, 32}"
    "traces_of f S B \<le> 0"
  then have "read_gssi_dzt_final fs p d =
      ((header_events ch S B spm @ [File_seek_end, File_tell]) @ [Print_trace_count_zero],
       (None, None))"
    by (simp add: read_empty)
  then show ?thesis using assms by simp
next
  fix f ch S spm
  assume "fs p = Some f" "1024 \<le> length f" "hdr_channels f = Inr ch" "hdr_samples f = Inr S"
    "hdr_bits f = Inr 8" "hdr_scans f = Inr spm" "0 < S" "0 < traces_of f S 8"
  then have "read_gssi_dzt_final fs p d =
      (data_events ch S 8 spm d 4 (traces_of f S 8 * S) @ [Print_critical ValueError],
       (None, None))"
    by (rule read_byte_width)
  then show ?thesis using assms by simp
next
  fix f ch S B spm
  assume a: "fs p = Some f" "1024 \<le> length f" "hdr_channels f = Inr ch"
    "hdr_samples f = Inr S" "hdr_bits f = Inr B" "hdr_scans f = Inr spm" "0 < S"
    "B = 16 \<or> B = 32" "0 < traces_of f S B"
  note r = read_full_width [where fs = fs and p = p and d = d, OF a]
  show ?thesis
  proof (cases "int_truediv_float (traces_of f S B) (if float_le_zero spm then d else spm)")
    case (Inl e)
    then show ?thesis using r assms by simp
  next
    case (Inr l)
    show ?thesis
    proof (rule that [OF a Inr])
      show "evs = data_events ch S B spm d (nat (B div 8)) (traces_of f S B * S) @
             [Print_data_read, Print_traces (traces_of f S B) l]"
        using r assms Inr by simp
      show "m = \<lparr>shape = (nat S, nat (traces_of f S B)),
           rows = map (\<lambda>s. map (\<lambda>t.
                    np_fromfile (drop 1024 f) (nat (B div 8))
                      (nat (traces_of f S B * S)) ! (t * nat S + s))
                  [0..<nat (traces_of f S B)]) [0..<nat S]\<rparr>"
        using r assms Inr by simp
      show "h = \<lparr>samples_per_trace = S, bits_per_sample = B,
           scans_per_meter = (if float_le_zero spm then d else spm),
           trace_count = traces_of f S B, total_length_m = l\<rparr>"
        using r assms Inr by simp
    qed
  qed
qed

subsection \<open>Floats, slices and the reshaped rows\<close>

lemma float_gt_not_le: "float_gt_zero x \<Longrightarrow> \<not> float_le_zero x"
  by (cases x) auto

lemma float_not_le_gt: "\<not> float_le_zero x \<Longrightarrow> x \<noteq> NaN \<Longrightarrow> float_gt_zero x"
  by (cases x) auto

lemma py_slice_drop: "py_slice (drop n xs) i j = py_slice xs (n + i) (n + j)"
  by (simp add: py_slice_def add.commute)

lemma column_fits:
  fixes t r c :: nat
  assumes "t < c"
  shows "t * r + r \<le> r * c"
proof -
  have "Suc t * r \<le> c * r"
    using assms by (intro mult_le_mono1) simp
  then show ?thesis by (simp add: mult.commute)
qed

lemma rows_reshape:
  fixes flat :: "int list"
  assumes "length flat = r * c"
  defines "M \<equiv> map (\<lambda>s. map (\<lambda>t. flat ! (t * r + s)) [0..<c]) [0..<r]"
  shows "length M = r"
    and "\<forall>x \<in> set M. length x = c"
    and "\<forall>s < r. \<forall>t < c. M ! s ! t = flat ! (t * r + s)"
    and "\<forall>t < c. map (\<lambda>x. x ! t) M = take r (drop (t * r) flat)"
proof -
  show "length M = r"
    by (simp add: M_def)
  show "\<forall>x \<in> set M. length x = c"
    by (auto simp: M_def)
  show "\<forall>s < r. \<forall>t < c. M ! s ! t = flat ! (t * r + s)"
    by (simp add: M_def)
  show "\<forall>t < c. map (\<lambda>x. x ! t) M = take r (drop (t * r) flat)"
  proof (intro allI impI)
    fix t assume t: "t < c"
    have len: "length (take r (drop (t * r) flat)) = r"
      using column_fits [OF t, of r] assms(1) by simp
    show "map (\<lambda>x. x ! t) M = take r (drop (t * r) flat)"
    proof (rule nth_equalityI)
      show "length (map (\<lambda>x. x ! t) M) = length (take r (drop (t * r) flat))"
        unfolding len by (simp add: M_def)
      fix i
      assume "i < length (map (\<lambda>x. x ! t) M)"
      then have i: "i < r" by (simp add: M_def)
      have "map (\<lambda>x. x ! t) M ! i = flat ! (t * r + i)"
        using i t by (simp add: M_def)
      moreover have "t * r \<le> length flat"
        using t assms(1) by simp
      then have "take r (drop (t * r) flat) ! i = flat ! (t * r + i)"
        using i by simp
      ultimately show "map (\<lambda>x. x ! t) M ! i = take r (drop (t * r) flat) ! i"
        by simp
    qed
  qed
qed

lemma recording_4x3_samples:
  "np_fromfile
     [1, 0, 2, 0, 3, 0, 4, 0, 5, 0, 6, 0, 7, 0, 8, 0, 9, 0, 10, 0, 11, 0, 0xFF, 0xFF, 7, 7, 7]
     2 12 = [1, 2, 3, 4, 5, 6, 7, 8, 9, 10, 11, - 1]"
  by code_simp

lemma recording_4x3_rows:
  "map (\<lambda>s. map (\<lambda>t. [1, 2, 3, 4, 5, 6, 7, 8, 9, 10, 11, - 1 :: int] ! (t * 4 + s)) [0..<3]) [0..<4] =
   [[1, 5, 9], [2, 6, 10], [3, 7, 11], [4, 8, - 1]]"
  by code_simp

lemma three_by_hundred:
  "int_truediv_float 3 (Fin 100) = Inr (Fin (1080863910568919 / 36028797018963968))"
  by code_simp

lemma recording_4x3_result:
  "read_gssi_dzt_final (one_file ''a.dzt'' recording_4x3) ''a.dzt'' (Fin 200) =
     ([File_read 1024, Print_identified 1, Print_header_params 4 16 (Fin 100),
       File_seek_end, File_tell, File_seek 1024, Np_fromfile 2 12, Print_data_read,
       Print_traces 3 (Fin (1080863910568919 / 36028797018963968))],
      (Some \<lparr>shape = (4, 3), rows = [[1, 5, 9], [2, 6, 10], [3, 7, 11], [4, 8, - 1]]\<rparr>,
       Some \<lparr>samples_per_trace = 4, bits_per_sample = 16, scans_per_meter = Fin 100,
             trace_count = 3,
             total_length_m = Fin (1080863910568919 / 36028797018963968)\<rparr>))"
proof -
  have t: "traces_of recording_4x3 4 16 = 3"
    by (simp add: recording_4x3_fields)
  show ?thesis
    using read_full_width [where fs = "one_file ''a.dzt'' recording_4x3" and p = "''a.dzt''"
        and d = "Fin 200" and f = recording_4x3 and ch = 1 and S = 4 and B = 16
        and spm = "Fin 100"]
    by (simp add: one_file_def recording_4x3_fields three_by_hundred recording_4x3_samples
          recording_4x3_rows)
qed

lemma fromfile_prefix:
  assumes "take (1024 + n * w) g = take (1024 + n * w) f"
  shows "np_fromfile (drop 1024 g) w n = np_fromfile (drop 1024 f) w n"
proof -
  have "take (n * w) (drop 1024 g) = take (n * w) (drop 1024 f)"
    using arg_cong [OF assms, of "drop 1024"] by (simp add: drop_take)
  then have "np_fromfile (take (n * w) (drop 1024 g)) w n =
             np_fromfile (take (n * w) (drop 1024 f)) w n"
    by simp
  then show ?thesis
    by (simp add: np_fromfile_take)
qed

lemma header_prefix:
  assumes "take (1024 + k) g = take (1024 + k) f"
  shows "take 1024 g = take 1024 f"
proof -
  have "take 1024 (take (1024 + k) g) = take 1024 (take (1024 + k) f)"
    using assms by simp
  then show ?thesis by (simp add: min_def)
qed

lemma one_file_same: "one_file name bytes name = Some bytes"
  by (simp add: one_file_def)

lemma two_by_two_hundred:
  "int_truediv_float 2 (Fin 200) = Inr (Fin (5764607523034235 / 576460752303423488))"
  by code_simp

lemma one_by_nan: "int_truediv_float 1 NaN = Inr NaN"
  by code_simp

lemma recording_zero_scans_samples:
  "np_fromfile [0xFE, 0xFF, 0xFF, 0xFF, 1, 0, 0, 0, 9] 4 2 = [- 2, 1]"
  by code_simp

lemma recording_nan_scans_samples: "np_fromfile [0xFF, 0xFF] 2 1 = [- 1]"
  by code_simp

lemma recording_zero_scans_row: "map ((!) [- 2, 1 :: int]) [0..<2] = [- 2, 1]"
  by code_simp

lemma recording_zero_scans_result:
  "read_gssi_dzt_final (one_file ''b.dzt'' recording_zero_scans) ''b.dzt'' (Fin 200) =
     ([File_read 1024, Print_identified 1, Print_header_params 1 32 NegZero,
       File_seek_end, File_tell, Print_using_default (Fin 200), File_seek 1024,
       Np_fromfile 4 2, Print_data_read,
       Print_traces 2 (Fin (5764607523034235 / 576460752303423488))],
      (Some \<lparr>shape = (1, 2), rows = [[- 2, 1]]\<rparr>,
       Some \<lparr>samples_per_trace = 1, bits_per_sample = 32, scans_per_meter = Fin 200,
             trace_count = 2,
             total_length_m = Fin (5764607523034235 / 576460752303423488)\<rparr>))"
  using read_full_width [where fs = "one_file ''b.dzt'' recording_zero_scans"
      and p = "''b.dzt''" and d = "Fin 200" and f = recording_zero_scans and ch = 1
      and S = 1 and B = 32 and spm = NegZero]
  by (simp add: one_file_def recording_zero_scans_fields two_by_two_hundred
        recording_zero_scans_samples recording_zero_scans_row)

lemma recording_nan_scans_result:
  "read_gssi_dzt_final (one_file ''c.dzt'' recording_nan_scans) ''c.dzt'' (Fin 200) =
     ([File_read 1024, Print_identified 1, Print_header_params 1 16 NaN,
       File_seek_end, File_tell, File_seek 1024, Np_fromfile 2 1, Print_data_read,
       Print_traces 1 NaN],
      (Some \<lparr>shape = (1, 1), rows = [[- 1]]\<rparr>,
       Some \<lparr>samples_per_trace = 1, bits_per_sample = 16, scans_per_meter = NaN,
             trace_count = 1, total_length_m = NaN\<rparr>))"
  using read_full_width [where fs = "one_file ''c.dzt'' recording_nan_scans"
      and p = "''c.dzt''" and d = "Fin 200" and f = recording_nan_scans and ch = 1
      and S = 1 and B = 16 and spm = NaN]
  by (simp add: one_file_def recording_nan_scans_fields one_by_nan
        recording_nan_scans_samples le_signed_examples)

lemma read_events_prefix:
  assumes "fs p = Some f" "1024 \<le> length f"
    and "hdr_channels f = Inr ch" "hdr_samples f = Inr S" "hdr_bits f = Inr B"
    and "hdr_scans f = Inr spm"
  shows "\<exists>rest. fst (read_gssi_dzt_final fs p d) =
           File_read 1024 # Print_identified ch # Print_header_params S B spm # rest"
proof -
  consider "S \<le> 0 \<or> B \<notin> {8, 16, 32}"
    | "0 < S" "B \<in> {8, 16, 32}" "traces_of f S B \<le> 0"
    | "0 < S" "B = 8" "0 < traces_of f S B"
    | "0 < S" "B = 16 \<or> B = 32" "0 < traces_of f S B"
    by fastforce
  then show ?thesis
  proof cases
    case 1
    show ?thesis
      by (simp add: read_invalid [where fs = fs and p = p, OF assms 1])
  next
    case 2
    show ?thesis
      by (simp add: read_empty [where fs = fs and p = p, OF assms 2])
  next
    case 3
    have "read_gssi_dzt_final fs p d =
      (data_events ch S 8 spm d 4 (traces_of f S 8 * S) @ [Print_critical ValueError],
       (None, None))"
      using assms 3 by (intro read_byte_width) simp_all
    then show ?thesis using 3(2) by simp
  next
    case 4
    note r = read_full_width [where fs = fs and p = p and d = d, OF assms 4]
    show ?thesis
      by (cases "int_truediv_float (traces_of f S B) (if float_le_zero spm then d else spm)")
         (simp_all add: r)
  qed
qed

lemma read_cong:
  assumes "fs p = Some f" "fs' p = Some g" "1024 \<le> length f" "length g = length f"
    and "hdr_channels g = hdr_channels f" "hdr_samples g = hdr_samples f"
    and "hdr_bits g = hdr_bits f" "hdr_scans g = hdr_scans f"
    and "drop 1024 g = drop 1024 f"
  shows "read_gssi_dzt_final fs' p d = read_gssi_dzt_final fs p d"
proof -
  note h = header_unpack [OF assms(3)]
  let ?ch = "le_signed [f ! 52, f ! 51]" and ?S = "le_signed [f ! 4, f ! 5]"
  let ?B = "le_signed [f ! 6, f ! 7]"
  let ?spm = "float32_of_bits (le_unsigned [f ! 40, f ! 41, f ! 42, f ! 43])"
  note a = assms(1,3) h
  have g: "fs' p = Some g" "1024 \<le> length g" "hdr_channels g = Inr ?ch"
    "hdr_samples g = Inr ?S" "hdr_bits g = Inr ?B" "hdr_scans g = Inr ?spm"
    using assms(2-8) h by simp_all
  have tr: "traces_of g ?S ?B = traces_of f ?S ?B"
    using assms(4) by simp
  consider "?S \<le> 0 \<or> ?B \<notin> {8, 16, 32}"
    | "0 < ?S" "?B \<in> {8, 16, 32}" "traces_of f ?S ?B \<le> 0"
    | "0 < ?S" "?B = 8" "0 < traces_of f ?S ?B"
    | "0 < ?S" "?B = 16 \<or> ?B = 32" "0 < traces_of f ?S ?B"
    by fastforce
  then show ?thesis
  proof cases
    case 1
    show ?thesis
      by (simp add: read_invalid [where fs = fs and p = p, OF a 1]
            read_invalid [where fs = fs' and p = p, OF g 1])
  next
    case 2
    have e2: "traces_of g ?S ?B \<le> 0" using 2(3) tr by simp
    show ?thesis
      by (simp add: read_empty [where fs = fs and p = p, OF a 2]
            read_empty [where fs = fs' and p = p, OF g 2(1,2) e2])
  next
    case 3
    have bf: "hdr_bits f = Inr 8" and bg: "hdr_bits g = Inr 8"
      using h(3) g(5) 3(2) by simp_all
    have tf: "0 < traces_of f ?S 8" using 3 by simp
    then have tg: "0 < traces_of g ?S 8" using assms(4) by simp
    show ?thesis
      unfolding read_byte_width [where fs = fs and p = p and d = d, OF a(1-4) bf a(6) 3(1) tf]
        read_byte_width [where fs = fs' and p = p and d = d, OF g(1-4) bg g(6) 3(1) tg]
      using assms(4) by simp
  next
    case 4
    have e4: "0 < traces_of g ?S ?B" using 4(3) tr by simp
    show ?thesis
      unfolding read_full_width [where fs = fs and p = p and d = d, OF a 4]
        read_full_width [where fs = fs' and p = p and d = d, OF g 4(1,2) e4]
      using assms(4,9) by (simp split: sum.splits)
  qed
qed

lemma recording_8bit_samples: "np_fromfile [1, 2, 3, 4] 4 4 = [67305985]"
  by code_simp

section \<open>The claims\<close>

text \<open>
  C1. For a file of at least 1024 bytes the four header expressions of the source give:
  the channel count, the signed 16-bit integer whose high byte is at offset 51 and low
  byte at 52 (big-endian); the samples per trace and the bits per sample, the signed
  16-bit integers whose low bytes are at 4 and 6 and high bytes at 5 and 7
  (little-endian); the scans per meter, the binary32 value of the 32-bit pattern whose
  lowest byte is at 40 and highest at 43 (little-endian).  These are the values that the
  run prints first and that a successful run returns in the metadata.  No other header
  byte is interpreted: changing any other byte of the header changes nothing.
\<close>

theorem header_fields_at_fixed_offsets:
  assumes "fs p = Some f" and "1024 \<le> length f"
  defines "channels \<equiv> sint (word_cat (f ! 51) (f ! 52) :: 16 word)"
    and "samples \<equiv> sint (word_cat (f ! 5) (f ! 4) :: 16 word)"
    and "bits \<equiv> sint (word_cat (f ! 7) (f ! 6) :: 16 word)"
    and "scans \<equiv> float32_of_bits (uint (word_cat (word_cat (f ! 43) (f ! 42) :: 16 word)
                                                 (word_cat (f ! 41) (f ! 40) :: 16 word) :: 32 word))"
  shows "hdr_channels f = Inr channels \<and> hdr_samples f = Inr samples \<and>
         hdr_bits f = Inr bits \<and> hdr_scans f = Inr scans \<and>
         (\<exists>rest. fst (read_gssi_dzt_final fs p d) =
            File_read 1024 # Print_identified channels #
            Print_header_params samples bits scans # rest) \<and>
         (\<forall>evs m h. read_gssi_dzt_final fs p d = (evs, (Some m, Some h)) \<longrightarrow>
            samples_per_trace h = samples \<and> bits_per_sample h = bits) \<and>
         (\<forall>g. length g = length f \<and> drop 1024 g = drop 1024 f \<and>
              g ! 4 = f ! 4 \<and> g ! 5 = f ! 5 \<and> g ! 6 = f ! 6 \<and> g ! 7 = f ! 7 \<and>
              g ! 40 = f ! 40 \<and> g ! 41 = f ! 41 \<and> g ! 42 = f ! 42 \<and> g ! 43 = f ! 43 \<and>
              g ! 51 = f ! 51 \<and> g ! 52 = f ! 52 \<longrightarrow>
              read_gssi_dzt_final (fs(p := Some g)) p d = read_gssi_dzt_final fs p d)"
proof -
  note u = header_unpack [OF assms(2)]
  have c: "hdr_channels f = Inr channels"
    using u(1) by (simp add: channels_def le_signed_2)
  have s: "hdr_samples f = Inr samples"
    using u(2) by (simp add: samples_def le_signed_2)
  have b: "hdr_bits f = Inr bits"
    using u(3) by (simp add: bits_def le_signed_2)
  have sc: "hdr_scans f = Inr scans"
    using u(4) by (simp only: scans_def le_unsigned_4)
  have pre: "\<exists>rest. fst (read_gssi_dzt_final fs p d) =
            File_read 1024 # Print_identified channels #
            Print_header_params samples bits scans # rest"
    using assms(1,2) c s b sc by (rule read_events_prefix)
  have meta: "samples_per_trace h = samples \<and> bits_per_sample h = bits"
    if r: "read_gssi_dzt_final fs p d = (evs, (Some m, Some h))" for evs m h
  proof -
    from r obtain f' S B spm l where a:
      "fs p = Some f'" "hdr_samples f' = Inr S" "hdr_bits f' = Inr B"
      "h = \<lparr>samples_per_trace = S, bits_per_sample = B,
           scans_per_meter = (if float_le_zero spm then d else spm),
           trace_count = traces_of f' S B, total_length_m = l\<rparr>"
      by (rule read_successE)
    have "f' = f" using a(1) assms(1) by simp
    then show ?thesis
      using a(2,3) s b by (simp add: a(4))
  qed
  have same: "read_gssi_dzt_final (fs(p := Some g)) p d = read_gssi_dzt_final fs p d"
    if g: "length g = length f" "drop 1024 g = drop 1024 f"
      "g ! 4 = f ! 4" "g ! 5 = f ! 5" "g ! 6 = f ! 6" "g ! 7 = f ! 7"
      "g ! 40 = f ! 40" "g ! 41 = f ! 41" "g ! 42 = f ! 42" "g ! 43 = f ! 43"
      "g ! 51 = f ! 51" "g ! 52 = f ! 52" for g
  proof (rule read_cong [where fs = fs and f = f])
    have lg: "1024 \<le> length g" using g(1) assms(2) by simp
    note v = header_unpack [OF lg]
    show "fs p = Some f" by (rule assms(1))
    show "(fs(p := Some g)) p = Some g" by simp
    show "1024 \<le> length f" by (rule assms(2))
    show "length g = length f" by (rule g(1))
    show "hdr_channels g = hdr_channels f"
      unfolding v(1) u(1) g(11,12) by (rule refl)
    show "hdr_samples g = hdr_samples f"
      unfolding v(2) u(2) g(3,4) by (rule refl)
    show "hdr_bits g = hdr_bits f"
      unfolding v(3) u(3) g(5,6) by (rule refl)
    show "hdr_scans g = hdr_scans f"
      unfolding v(4) u(4) g(7-10) by (rule refl)
    show "drop 1024 g = drop 1024 f" by (rule g(2))
  qed
  show ?thesis
    using c s b sc pre meta same by blast
qed

theorem header_fields_at_fixed_offsets_witness:
  "one_file ''a.dzt'' recording_4x3 ''a.dzt'' = Some recording_4x3 \<and>
   1024 \<le> length recording_4x3 \<and>
   hdr_samples recording_4x3 = Inr 4 \<and>
   sint (word_cat (recording_4x3 ! 5) (recording_4x3 ! 4) :: 16 word) = 4 \<and>
   hdr_channels recording_4x3 = Inr 1 \<and>
   sint (word_cat (recording_4x3 ! 51) (recording_4x3 ! 52) :: 16 word) = 1 \<and>
   read_gssi_dzt_final
     ((one_file ''a.dzt'' recording_4x3)(''a.dzt'' := Some (recording_4x3[0 := 0xAB])))
     ''a.dzt'' (Fin 200) =
   read_gssi_dzt_final (one_file ''a.dzt'' recording_4x3) ''a.dzt'' (Fin 200)"
proof -
  have len: "1024 \<le> length recording_4x3"
    by (simp add: recording_4x3_fields)
  note c = header_fields_at_fixed_offsets
    [where fs = "one_file ''a.dzt'' recording_4x3" and p = "''a.dzt''" and f = recording_4x3
       and d = "Fin 200", OF one_file_same len]
  have "read_gssi_dzt_final
     ((one_file ''a.dzt'' recording_4x3)(''a.dzt'' := Some (recording_4x3[0 := 0xAB])))
     ''a.dzt'' (Fin 200) =
   read_gssi_dzt_final (one_file ''a.dzt'' recording_4x3) ''a.dzt'' (Fin 200)"
    using c [THEN conjunct2, THEN conjunct2, THEN conjunct2, THEN conjunct2, THEN conjunct2,
             THEN conjunct2, THEN spec [where x = "recording_4x3[0 := 0xAB]"]]
    by simp
  moreover have "sint (word_cat (recording_4x3 ! 5) (recording_4x3 ! 4) :: 16 word) = 4"
    using c by (simp add: recording_4x3_fields)
  moreover have "sint (word_cat (recording_4x3 ! 51) (recording_4x3 ! 52) :: 16 word) = 1"
    using c by (simp add: recording_4x3_fields)
  ultimately show ?thesis
    using len by (simp add: one_file_same recording_4x3_fields)
qed

text \<open>
  C2. On success the matrix has the shape \<open>(samples_per_trace, trace_count)\<close>, with that
  many rows, each of \<open>trace_count\<close> entries.  The flat sample stream is what
  \<open>np_fromfile\<close> reads from offset 1024: \<open>S * T\<close> items, item \<open>k\<close> being the little-endian
  signed integer of the \<open>bits_per_sample / 8\<close> bytes from offset \<open>1024 + k * w\<close> on.  Element
  \<open>(s, t)\<close> of the matrix is item \<open>t * S + s\<close> of the stream, and column \<open>t\<close> is the \<open>t\<close>-th
  run of \<open>S\<close> items.
\<close>

theorem reshape_is_column_major:
  assumes "fs p = Some f"
    and "read_gssi_dzt_final fs p d = (evs, (Some m, Some h))"
  defines "S \<equiv> nat (samples_per_trace h)"
    and "T \<equiv> nat (trace_count h)"
    and "w \<equiv> nat (bits_per_sample h div 8)"
  defines "flat \<equiv> np_fromfile (drop 1024 f) w (S * T)"
  shows "shape m = (S, T) \<and> length (rows m) = S \<and> (\<forall>r \<in> set (rows m). length r = T) \<and>
         length flat = S * T \<and>
         (\<forall>k < S * T. flat ! k = le_signed (py_slice f (1024 + k * w) (1024 + k * w + w))) \<and>
         (\<forall>s < S. \<forall>t < T. rows m ! s ! t = flat ! (t * S + s)) \<and>
         (\<forall>t < T. map (\<lambda>r. r ! t) (rows m) = take S (drop (t * S) flat))"
proof -
  from assms(2) obtain f' ch S' B spm l where a:
    "fs p = Some f'" "1024 \<le> length f'" "0 < S'" "B = 16 \<or> B = 32" "0 < traces_of f' S' B"
    "m = \<lparr>shape = (nat S', nat (traces_of f' S' B)),
           rows = map (\<lambda>s. map (\<lambda>t.
                    np_fromfile (drop 1024 f') (nat (B div 8))
                      (nat (traces_of f' S' B * S')) ! (t * nat S' + s))
                  [0..<nat (traces_of f' S' B)]) [0..<nat S']\<rparr>"
    "h = \<lparr>samples_per_trace = S', bits_per_sample = B,
           scans_per_meter = (if float_le_zero spm then d else spm),
           trace_count = traces_of f' S' B, total_length_m = l\<rparr>"
    by (rule read_successE)
  have f: "f' = f" using a(1) assms(1) by simp
  have S: "S = nat S'" and T: "T = nat (traces_of f S' B)" and w: "w = nat (B div 8)"
    using a(7) f by (simp_all add: S_def T_def w_def)
  have n: "nat (traces_of f S' B * S') = S * T"
    using a(3,5) f by (simp add: S T nat_mult_distrib mult.commute)
  have w': "(if B = 16 then 2 else 4) = w" "0 < w"
    using a(4) by (auto simp: w)
  have "length (np_fromfile (drop 1024 f) (if B = 16 then 2 else 4)
                 (nat (traces_of f S' B * S'))) = nat S' * nat (traces_of f S' B)"
    using a(2,3,4) refl unfolding f by (rule raw_length_full) (use a(5) f in simp)
  then have len: "length flat = S * T"
    unfolding w' n S [symmetric] T [symmetric] flat_def .
  have m: "m = \<lparr>shape = (S, T), rows = map (\<lambda>s. map (\<lambda>t. flat ! (t * S + s)) [0..<T]) [0..<S]\<rparr>"
    unfolding flat_def S T w n [unfolded S T, symmetric] using a(6) f by simp
  have item: "\<forall>k < S * T. flat ! k = le_signed (py_slice f (1024 + k * w) (1024 + k * w + w))"
  proof (intro allI impI)
    fix k assume k: "k < S * T"
    have "length flat = min (S * T) (length (drop 1024 f) div w)"
      unfolding flat_def using w'(2) by (rule length_np_fromfile)
    then have "k < length (drop 1024 f) div w"
      using len k by simp
    then have "flat ! k = le_signed (py_slice (drop 1024 f) (k * w) (k * w + w))"
      unfolding flat_def using w'(2) k by (intro nth_np_fromfile)
    then show "flat ! k = le_signed (py_slice f (1024 + k * w) (1024 + k * w + w))"
      by (simp add: py_slice_drop add.assoc)
  qed
  note r = rows_reshape [OF len]
  show ?thesis
    unfolding m using r item len by simp
qed

theorem reshape_is_column_major_witness:
  "one_file ''a.dzt'' recording_4x3 ''a.dzt'' = Some recording_4x3 \<and>
   read_gssi_dzt_final (one_file ''a.dzt'' recording_4x3) ''a.dzt'' (Fin 200) =
     ([File_read 1024, Print_identified 1, Print_header_params 4 16 (Fin 100),
       File_seek_end, File_tell, File_seek 1024, Np_fromfile 2 12, Print_data_read,
       Print_traces 3 (Fin (1080863910568919 / 36028797018963968))],
      (Some \<lparr>shape = (4, 3), rows = [[1, 5, 9], [2, 6, 10], [3, 7, 11], [4, 8, - 1]]\<rparr>,
       Some \<lparr>samples_per_trace = 4, bits_per_sample = 16, scans_per_meter = Fin 100,
             trace_count = 3,
             total_length_m = Fin (1080863910568919 / 36028797018963968)\<rparr>)) \<and>
   [[1, 5, 9], [2, 6, 10], [3, 7, 11], [4, 8, - 1]] ! 3 ! 2 =
     np_fromfile (drop 1024 recording_4x3) 2 12 ! 11 \<and>
   map (\<lambda>r. r ! 2) [[1, 5, 9], [2, 6, 10], [3, 7, 11], [4, 8, - 1]] =
     take 4 (drop 8 (np_fromfile (drop 1024 recording_4x3) 2 12))"
proof -
  note c = reshape_is_column_major [OF one_file_same recording_4x3_result]
  have e: "\<forall>s < 4. \<forall>t < 3. [[1, 5, 9], [2, 6, 10], [3, 7, 11], [4, 8, - 1]] ! s ! t =
             np_fromfile (drop 1024 recording_4x3) 2 12 ! (t * 4 + s)"
    using c by simp
  have k: "\<forall>t < 3. map (\<lambda>r. r ! t) [[1, 5, 9], [2, 6, 10], [3, 7, 11], [4, 8, - 1]] =
             take 4 (drop (t * 4) (np_fromfile (drop 1024 recording_4x3) 2 12))"
    using c by simp
  have "[[1, 5, 9], [2, 6, 10], [3, 7, 11], [4, 8, - 1]] ! 3 ! 2 =
          np_fromfile (drop 1024 recording_4x3) 2 12 ! (2 * 4 + 3)"
    using e by (elim allE [of _ 3] allE [of _ 2] impE) simp_all
  moreover have "map (\<lambda>r. r ! 2) [[1, 5, 9], [2, 6, 10], [3, 7, 11], [4, 8, - 1]] =
     take 4 (drop (2 * 4) (np_fromfile (drop 1024 recording_4x3) 2 12))"
    using k by (elim allE [of _ 2] impE) simp_all
  ultimately show ?thesis
    using recording_4x3_result by (simp add: one_file_same)
qed

text \<open>
  C3. On success the trace count is the floor of the data region size \<open>N\<close> by the bytes
  per trace \<open>B\<close>, which leaves \<open>N mod B\<close> trailing bytes.  These do not contribute: any file
  of the same length that agrees with this one up to the end of the last complete trace
  decodes to the same effects, the same matrix and the same metadata.
\<close>

theorem trace_count_is_floor:
  assumes "fs p = Some f"
    and "read_gssi_dzt_final fs p d = (evs, (Some m, Some h))"
  defines "B \<equiv> samples_per_trace h * (bits_per_sample h div 8)"
    and "N \<equiv> int (length f) - 1024"
  shows "trace_count h = N div B \<and> N - trace_count h * B = N mod B \<and>
         (\<forall>g. length g = length f \<and>
              take (1024 + nat (trace_count h * B)) g = take (1024 + nat (trace_count h * B)) f \<longrightarrow>
              read_gssi_dzt_final (fs(p := Some g)) p d = (evs, (Some m, Some h)))"
proof -
  from assms(2) obtain f' ch S Bits spm l where a:
    "fs p = Some f'" "1024 \<le> length f'"
    "hdr_channels f' = Inr ch" "hdr_samples f' = Inr S" "hdr_bits f' = Inr Bits"
    "hdr_scans f' = Inr spm"
    "0 < S" "Bits = 16 \<or> Bits = 32" "0 < traces_of f' S Bits"
    "int_truediv_float (traces_of f' S Bits) (if float_le_zero spm then d else spm) = Inr l"
    "evs = data_events ch S Bits spm d (nat (Bits div 8)) (traces_of f' S Bits * S) @
             [Print_data_read, Print_traces (traces_of f' S Bits) l]"
    "m = \<lparr>shape = (nat S, nat (traces_of f' S Bits)),
           rows = map (\<lambda>s. map (\<lambda>t.
                    np_fromfile (drop 1024 f') (nat (Bits div 8))
                      (nat (traces_of f' S Bits * S)) ! (t * nat S + s))
                  [0..<nat (traces_of f' S Bits)]) [0..<nat S]\<rparr>"
    "h = \<lparr>samples_per_trace = S, bits_per_sample = Bits,
           scans_per_meter = (if float_le_zero spm then d else spm),
           trace_count = traces_of f' S Bits, total_length_m = l\<rparr>"
    by (rule read_successE)
  have f: "f' = f" using a(1) assms(1) by simp
  note a = a [unfolded f]
  have B: "B = S * (Bits div 8)" and T: "trace_count h = traces_of f S Bits"
    using a(13) by (simp_all add: B_def)
  have floor: "trace_count h = N div B"
    by (simp add: T B N_def)
  have rest: "N - trace_count h * B = N mod B"
    unfolding floor by (simp add: minus_div_mult_eq_mod)
  have bytes: "nat (trace_count h * B) = nat (traces_of f S Bits * S) * nat (Bits div 8)"
    using a(7,8,9) unfolding T B by (auto simp: nat_mult_distrib mult.assoc)
  have "read_gssi_dzt_final (fs(p := Some g)) p d = (evs, (Some m, Some h))"
    if g: "length g = length f"
      "take (1024 + nat (trace_count h * B)) g = take (1024 + nat (trace_count h * B)) f" for g
  proof -
    have hd: "take 1024 g = take 1024 f"
      using g(2) by (rule header_prefix)
    have raw: "np_fromfile (drop 1024 g) (nat (Bits div 8)) (nat (traces_of f S Bits * S)) =
               np_fromfile (drop 1024 f) (nat (Bits div 8)) (nat (traces_of f S Bits * S))"
      using g(2) unfolding bytes by (rule fromfile_prefix)
    have tr: "traces_of g S Bits = traces_of f S Bits"
      using g(1) by simp
    have "read_gssi_dzt_final (fs(p := Some g)) p d =
           (case int_truediv_float (traces_of g S Bits) (if float_le_zero spm then d else spm) of
              Inl e \<Rightarrow>
                (data_events ch S Bits spm d (nat (Bits div 8)) (traces_of g S Bits * S) @
                   [Print_data_read, Print_critical e], (None, None))
            | Inr l \<Rightarrow>
                (data_events ch S Bits spm d (nat (Bits div 8)) (traces_of g S Bits * S) @
                   [Print_data_read, Print_traces (traces_of g S Bits) l],
                 (Some \<lparr>shape = (nat S, nat (traces_of g S Bits)),
                        rows = map (\<lambda>s. map (\<lambda>t.
                                 np_fromfile (drop 1024 g) (nat (Bits div 8))
                                   (nat (traces_of g S Bits * S)) ! (t * nat S + s))
                               [0..<nat (traces_of g S Bits)]) [0..<nat S]\<rparr>,
                  Some \<lparr>samples_per_trace = S, bits_per_sample = Bits,
                        scans_per_meter = (if float_le_zero spm then d else spm),
                        trace_count = traces_of g S Bits, total_length_m = l\<rparr>)))"
    proof (rule read_full_width)
      show "(fs(p := Some g)) p = Some g" by simp
      show "1024 \<le> length g" using a(2) g(1) by simp
      show "hdr_channels g = Inr ch" "hdr_samples g = Inr S" "hdr_bits g = Inr Bits"
        "hdr_scans g = Inr spm"
        unfolding hd by (rule a)+
      show "0 < S" "Bits = 16 \<or> Bits = 32" by (rule a)+
      show "0 < traces_of g S Bits" unfolding tr by (rule a)
    qed
    then show ?thesis
      unfolding tr raw a(10) a(11) a(12) a(13) by simp
  qed
  then show ?thesis
    using floor rest by blast
qed

theorem trace_count_is_floor_witness:
  "one_file ''a.dzt'' recording_4x3 ''a.dzt'' = Some recording_4x3 \<and>
   (3 :: int) = (int (length recording_4x3) - 1024) div (4 * (16 div 8)) \<and>
   length (take 1048 recording_4x3 @ [0, 0, 0]) = length recording_4x3 \<and>
   read_gssi_dzt_final
     ((one_file ''a.dzt'' recording_4x3)(''a.dzt'' := Some (take 1048 recording_4x3 @ [0, 0, 0])))
     ''a.dzt'' (Fin 200) =
     ([File_read 1024, Print_identified 1, Print_header_params 4 16 (Fin 100),
       File_seek_end, File_tell, File_seek 1024, Np_fromfile 2 12, Print_data_read,
       Print_traces 3 (Fin (1080863910568919 / 36028797018963968))],
      (Some \<lparr>shape = (4, 3), rows = [[1, 5, 9], [2, 6, 10], [3, 7, 11], [4, 8, - 1]]\<rparr>,
       Some \<lparr>samples_per_trace = 4, bits_per_sample = 16, scans_per_meter = Fin 100,
             trace_count = 3,
             total_length_m = Fin (1080863910568919 / 36028797018963968)\<rparr>))"
proof -
  note c = trace_count_is_floor [OF one_file_same recording_4x3_result]
  have len: "length (take 1048 recording_4x3 @ [0, 0, 0]) = length recording_4x3"
    by (simp add: recording_4x3_fields)
  have "(3 :: int) = (int (length recording_4x3) - 1024) div (4 * (16 div 8))"
    using c by simp
  moreover have "read_gssi_dzt_final
     ((one_file ''a.dzt'' recording_4x3)(''a.dzt'' := Some (take 1048 recording_4x3 @ [0, 0, 0])))
     ''a.dzt'' (Fin 200) =
     ([File_read 1024, Print_identified 1, Print_header_params 4 16 (Fin 100),
       File_seek_end, File_tell, File_seek 1024, Np_fromfile 2 12, Print_data_read,
       Print_traces 3 (Fin (1080863910568919 / 36028797018963968))],
      (Some \<lparr>shape = (4, 3), rows = [[1, 5, 9], [2, 6, 10], [3, 7, 11], [4, 8, - 1]]\<rparr>,
       Some \<lparr>samples_per_trace = 4, bits_per_sample = 16, scans_per_meter = Fin 100,
             trace_count = 3,
             total_length_m = Fin (1080863910568919 / 36028797018963968)\<rparr>))"
    using c [THEN conjunct2, THEN conjunct2, THEN spec,
             of "take 1048 recording_4x3 @ [0, 0, 0]"] len
    by (simp add: recording_4x3_fields(1))
  ultimately show ?thesis
    using len by (simp add: one_file_same)
qed

text \<open>
  C4. When the decoded \<open>samples_per_trace\<close> is not positive or the decoded
  \<open>bits_per_sample\<close> is none of 8, 16 and 32, the decoder prints the
  invalid-header-parameters line and returns \<open>(None, None)\<close>.  The only file operation of
  the run is the read of the 1024 header bytes, and the result is the same whatever
  follows the header in the file.
\<close>

theorem invalid_header_gates_data_read:
  assumes "fs p = Some f" "1024 \<le> length f"
    and "hdr_channels f = Inr ch" "hdr_samples f = Inr S" "hdr_bits f = Inr B"
    and "hdr_scans f = Inr spm"
    and "S \<le> 0 \<or> B \<notin> {8, 16, 32}"
  shows "read_gssi_dzt_final fs p d =
           ([File_read 1024, Print_identified ch, Print_header_params S B spm,
             Print_invalid_header], (None, None)) \<and>
         (\<forall>dat. read_gssi_dzt_final (fs(p := Some (take 1024 f @ dat))) p d =
                read_gssi_dzt_final fs p d)"
proof (intro conjI allI)
  show r: "read_gssi_dzt_final fs p d =
           ([File_read 1024, Print_identified ch, Print_header_params S B spm,
             Print_invalid_header], (None, None))"
    using assms by (rule read_invalid)
  fix dat
  let ?g = "take 1024 f @ dat"
  have t: "take 1024 ?g = take 1024 f"
    using assms(2) by simp
  have "read_gssi_dzt_final (fs(p := Some ?g)) p d =
           ([File_read 1024, Print_identified ch, Print_header_params S B spm,
             Print_invalid_header], (None, None))"
  proof (rule read_invalid)
    show "(fs(p := Some ?g)) p = Some ?g" by simp
    show "1024 \<le> length ?g" using assms(2) by simp
    show "hdr_channels ?g = Inr ch" "hdr_samples ?g = Inr S" "hdr_bits ?g = Inr B"
      "hdr_scans ?g = Inr spm"
      using assms(3-6) by (simp_all only: t)
    show "S \<le> 0 \<or> B \<notin> {8, 16, 32}" by (rule assms(7))
  qed
  then show "read_gssi_dzt_final (fs(p := Some ?g)) p d = read_gssi_dzt_final fs p d"
    using r by simp
qed

theorem invalid_header_gates_data_read_witness:
  "hdr_bits recording_bad_bits = Inr 12 \<and>
   read_gssi_dzt_final (one_file ''a.dzt'' recording_bad_bits) ''a.dzt'' (Fin 200) =
   ([File_read 1024, Print_identified 1, Print_header_params 4 12 (Fin 100),
     Print_invalid_header], (None, None))"
  using invalid_header_gates_data_read
    [of "one_file ''a.dzt'' recording_bad_bits" "''a.dzt''" recording_bad_bits
        1 4 12 "Fin 100" "Fin 200"]
  by (simp add: recording_bad_bits_fields one_file_def)

text \<open>
  C5. The claim does not hold of the code.  For 8-bit samples the trace count is computed
  with one byte per sample, but the samples are read as 4-byte items: the recording
  below has two samples per trace and four data bytes, so two traces and four samples
  are expected, \<open>np_fromfile\<close> is asked for four 4-byte items and gets one, the reshape
  raises \<open>ValueError\<close>, and the run ends in the handler of the \<open>try\<close> block with
  \<open>(None, None)\<close>.
\<close>

theorem eight_bit_samples_read_as_four_byte_items:
  "hdr_samples recording_8bit = Inr 2 \<and> hdr_bits recording_8bit = Inr 8 \<and>
   drop 1024 recording_8bit = [1, 2, 3, 4] \<and>
   traces_of recording_8bit 2 8 = 2 \<and>
   np_fromfile (drop 1024 recording_8bit) 4 4 = [67305985] \<and>
   reshape_F (np_fromfile (drop 1024 recording_8bit) 4 4) (2, 2) = Inl ValueError \<and>
   read_gssi_dzt_final (one_file ''d.dzt'' recording_8bit) ''d.dzt'' (Fin 200) =
     ([File_read 1024, Print_identified 1, Print_header_params 2 8 (Fin 100),
       File_seek_end, File_tell, File_seek 1024, Np_fromfile 4 4,
       Print_critical ValueError], (None, None))"
proof -
  have t: "traces_of recording_8bit 2 8 = 2"
    by (simp add: recording_8bit_fields)
  have "read_gssi_dzt_final (one_file ''d.dzt'' recording_8bit) ''d.dzt'' (Fin 200) =
          (data_events 1 2 8 (Fin 100) (Fin 200) 4 (traces_of recording_8bit 2 8 * 2) @
             [Print_critical ValueError], (None, None))"
    by (rule read_byte_width) (simp_all add: one_file_same recording_8bit_fields)
  then show ?thesis
    by (simp add: recording_8bit_fields recording_8bit_samples reshape_F_def)
qed

text \<open>
  C6. On success, when the scans per meter decoded from the header is \<open>\<le> 0\<close> (zero of
  either sign or negative) the metadata holds the caller's default and the run printed
  the line that tells so; when it is \<open>> 0\<close> the metadata holds the decoded value and no
  such line was printed.
\<close>

theorem scans_per_meter_fallback:
  assumes "fs p = Some f"
    and "hdr_scans f = Inr spm"
    and "read_gssi_dzt_final fs p d = (evs, (Some m, Some h))"
  shows "(float_le_zero spm \<longrightarrow>
            scans_per_meter h = d \<and> Print_using_default d \<in> set evs) \<and>
         (float_gt_zero spm \<longrightarrow>
            scans_per_meter h = spm \<and> (\<forall>x. Print_using_default x \<notin> set evs))"
proof -
  from assms(3) obtain f' ch S B spm' l where a:
    "fs p = Some f'" "hdr_scans f' = Inr spm'"
    "evs = data_events ch S B spm' d (nat (B div 8)) (traces_of f' S B * S) @
             [Print_data_read, Print_traces (traces_of f' S B) l]"
    "h = \<lparr>samples_per_trace = S, bits_per_sample = B,
           scans_per_meter = (if float_le_zero spm' then d else spm'),
           trace_count = traces_of f' S B, total_length_m = l\<rparr>"
    by (rule read_successE)
  have "f' = f" using a(1) assms(1) by simp
  then have s: "spm' = spm" using a(2) assms(2) by simp
  show ?thesis
    using float_gt_not_le [of spm] by (auto simp: a(3,4) s)
qed

theorem scans_per_meter_fallback_witness:
  "hdr_scans recording_zero_scans = Inr NegZero \<and> float_le_zero NegZero \<and>
   scans_per_meter
     (the (snd (snd (read_gssi_dzt_final (one_file ''b.dzt'' recording_zero_scans) ''b.dzt''
                       (Fin 200))))) = Fin 200 \<and>
   Print_using_default (Fin 200) \<in>
     set (fst (read_gssi_dzt_final (one_file ''b.dzt'' recording_zero_scans) ''b.dzt''
                 (Fin 200))) \<and>
   hdr_scans recording_4x3 = Inr (Fin 100) \<and> float_gt_zero (Fin 100) \<and>
   scans_per_meter
     (the (snd (snd (read_gssi_dzt_final (one_file ''a.dzt'' recording_4x3) ''a.dzt''
                       (Fin 200))))) = Fin 100 \<and>
   Print_using_default (Fin 200) \<notin>
     set (fst (read_gssi_dzt_final (one_file ''a.dzt'' recording_4x3) ''a.dzt'' (Fin 200)))"
proof -
  note b = scans_per_meter_fallback
    [OF one_file_same recording_zero_scans_fields(6) recording_zero_scans_result]
  note a = scans_per_meter_fallback
    [OF one_file_same recording_4x3_fields(6) recording_4x3_result]
  show ?thesis
    using a b
    by (simp add: recording_zero_scans_result recording_4x3_result
          recording_zero_scans_fields(6) recording_4x3_fields(6))
qed

text \<open>
  C7. When the header is valid and the data region holds fewer bytes than one trace,
  the trace count is zero, the decoder prints the zero-trace-count line and returns
  \<open>(None, None)\<close>.  A matrix that is returned has at least one column.
\<close>

theorem short_data_is_empty_recording:
  assumes "fs p = Some f" "1024 \<le> length f"
    and "hdr_channels f = Inr ch" "hdr_samples f = Inr S" "hdr_bits f = Inr B"
    and "hdr_scans f = Inr spm"
    and "0 < S" "B \<in> {8, 16, 32}"
  shows "(int (length f) - 1024 < S * (B div 8) \<longrightarrow>
            traces_of f S B = 0 \<and>
            read_gssi_dzt_final fs p d =
              ([File_read 1024, Print_identified ch, Print_header_params S B spm,
                File_seek_end, File_tell, Print_trace_count_zero], (None, None))) \<and>
         (\<forall>evs m h. read_gssi_dzt_final fs p d = (evs, (Some m, Some h)) \<longrightarrow>
            1 \<le> trace_count h \<and> snd (shape m) = nat (trace_count h))"
proof (intro conjI impI allI)
  assume short: "int (length f) - 1024 < S * (B div 8)"
  show z: "traces_of f S B = 0"
    using assms(2) short by (simp add: div_pos_pos_trivial)
  show "read_gssi_dzt_final fs p d =
           ([File_read 1024, Print_identified ch, Print_header_params S B spm,
             File_seek_end, File_tell, Print_trace_count_zero], (None, None))"
    using assms(1-8) by (rule read_empty) (simp add: z)
next
  fix evs m h
  assume "read_gssi_dzt_final fs p d = (evs, (Some m, Some h))"
  then obtain f' S' B' spm' l where a:
    "0 < traces_of f' S' B'"
    "m = \<lparr>shape = (nat S', nat (traces_of f' S' B')),
           rows = map (\<lambda>s. map (\<lambda>t.
                    np_fromfile (drop 1024 f') (nat (B' div 8))
                      (nat (traces_of f' S' B' * S')) ! (t * nat S' + s))
                  [0..<nat (traces_of f' S' B')]) [0..<nat S']\<rparr>"
    "h = \<lparr>samples_per_trace = S', bits_per_sample = B',
           scans_per_meter = (if float_le_zero spm' then d else spm'),
           trace_count = traces_of f' S' B', total_length_m = l\<rparr>"
    by (rule read_successE)
  show "1 \<le> trace_count h" "snd (shape m) = nat (trace_count h)"
    using a(1) by (simp_all add: a(2,3))
qed

theorem short_data_is_empty_recording_witness:
  "hdr_samples recording_short_data = Inr 4 \<and> hdr_bits recording_short_data = Inr 16 \<and>
   int (length recording_short_data) - 1024 < 4 * (16 div 8) \<and>
   read_gssi_dzt_final (one_file ''a.dzt'' recording_short_data) ''a.dzt'' (Fin 200) =
   ([File_read 1024, Print_identified 1, Print_header_params 4 16 (Fin 100),
     File_seek_end, File_tell, Print_trace_count_zero], (None, None))"
  using short_data_is_empty_recording
    [of "one_file ''a.dzt'' recording_short_data" "''a.dzt''" recording_short_data
        1 4 16 "Fin 100" "Fin 200"]
  by (simp add: recording_short_data_fields one_file_def)

text \<open>
  C8. On success the total length in the metadata is the quotient, as Python's \<open>/\<close> of
  an integer by a float computes it, of the trace count in the metadata by the scans
  per meter in the metadata.  That trace count is the final one, the floor of the data
  size by the bytes per trace, and those scans per meter are the value after the
  fallback.
\<close>

theorem total_length_is_quotient:
  assumes "fs p = Some f"
    and "hdr_scans f = Inr spm"
    and "read_gssi_dzt_final fs p d = (evs, (Some m, Some h))"
  shows "int_truediv_float (trace_count h) (scans_per_meter h) = Inr (total_length_m h) \<and>
         trace_count h =
           (int (length f) - 1024) div (samples_per_trace h * (bits_per_sample h div 8)) \<and>
         scans_per_meter h = (if float_le_zero spm then d else spm)"
proof -
  from assms(3) obtain f' S B spm' l where a:
    "fs p = Some f'" "hdr_scans f' = Inr spm'"
    "int_truediv_float (traces_of f' S B) (if float_le_zero spm' then d else spm') = Inr l"
    "h = \<lparr>samples_per_trace = S, bits_per_sample = B,
           scans_per_meter = (if float_le_zero spm' then d else spm'),
           trace_count = traces_of f' S B, total_length_m = l\<rparr>"
    by (rule read_successE)
  have f: "f' = f" using a(1) assms(1) by simp
  then have s: "spm' = spm" using a(2) assms(2) by simp
  show ?thesis
    using a(3) by (simp add: a(4) f s)
qed

theorem total_length_is_quotient_witness:
  "hdr_scans recording_4x3 = Inr (Fin 100) \<and>
   int_truediv_float 3 (Fin 100) = Inr (Fin (1080863910568919 / 36028797018963968)) \<and>
   total_length_m
     (the (snd (snd (read_gssi_dzt_final (one_file ''a.dzt'' recording_4x3) ''a.dzt''
                       (Fin 200))))) = Fin (1080863910568919 / 36028797018963968)"
proof -
  note c = total_length_is_quotient
    [OF one_file_same recording_4x3_fields(6) recording_4x3_result]
  show ?thesis
    using c by (simp add: recording_4x3_result recording_4x3_fields(6))
qed

text \<open>
  C9, as amended.  On success the metadata has \<open>samples_per_trace > 0\<close>,
  \<open>bits_per_sample\<close> among 8, 16 and 32 and \<open>trace_count \<ge> 1\<close>, and the matrix has
  \<open>samples_per_trace\<close> rows of \<open>trace_count\<close> entries each.  When the default is positive and
  the scans per meter decoded from the header is not a NaN, \<open>scans_per_meter > 0\<close> too.
  A NaN in the header is not \<open>\<le> 0\<close>, so it is kept and returned, as the counterexample
  shows.
\<close>

theorem success_invariant:
  assumes "fs p = Some f"
    and "hdr_scans f = Inr spm"
    and "read_gssi_dzt_final fs p d = (evs, (Some m, Some h))"
  shows "0 < samples_per_trace h \<and> bits_per_sample h \<in> {8, 16, 32} \<and>
         1 \<le> trace_count h \<and>
         shape m = (nat (samples_per_trace h), nat (trace_count h)) \<and>
         length (rows m) = nat (samples_per_trace h) \<and>
         (\<forall>r \<in> set (rows m). length r = nat (trace_count h)) \<and>
         (float_gt_zero d \<and> spm \<noteq> NaN \<longrightarrow> float_gt_zero (scans_per_meter h))"
proof -
  from assms(3) obtain f' S B spm' l where a:
    "fs p = Some f'" "hdr_scans f' = Inr spm'"
    "0 < S" "B = 16 \<or> B = 32" "0 < traces_of f' S B"
    "m = \<lparr>shape = (nat S, nat (traces_of f' S B)),
           rows = map (\<lambda>s. map (\<lambda>t.
                    np_fromfile (drop 1024 f') (nat (B div 8))
                      (nat (traces_of f' S B * S)) ! (t * nat S + s))
                  [0..<nat (traces_of f' S B)]) [0..<nat S]\<rparr>"
    "h = \<lparr>samples_per_trace = S, bits_per_sample = B,
           scans_per_meter = (if float_le_zero spm' then d else spm'),
           trace_count = traces_of f' S B, total_length_m = l\<rparr>"
    by (rule read_successE)
  have "f' = f" using a(1) assms(1) by simp
  then have s: "spm' = spm" using a(2) assms(2) by simp
  have "float_gt_zero (if float_le_zero spm then d else spm)"
    if "float_gt_zero d" "spm \<noteq> NaN"
    using that float_not_le_gt [of spm] by simp
  then show ?thesis
    using a(3,4,5) by (auto simp: a(6,7) s)
qed

theorem success_invariant_witness:
  "hdr_scans recording_4x3 = Inr (Fin 100) \<and> float_gt_zero (Fin 200) \<and> Fin 100 \<noteq> NaN \<and>
   float_gt_zero
     (scans_per_meter
        (the (snd (snd (read_gssi_dzt_final (one_file ''a.dzt'' recording_4x3) ''a.dzt''
                          (Fin 200)))))) \<and>
   shape (the (fst (snd (read_gssi_dzt_final (one_file ''a.dzt'' recording_4x3) ''a.dzt''
                           (Fin 200))))) = (4, 3)"
proof -
  note c = success_invariant
    [OF one_file_same recording_4x3_fields(6) recording_4x3_result]
  show ?thesis
    using c by (simp add: recording_4x3_result recording_4x3_fields(6))
qed

theorem success_invariant_counterexample:
  "read_gssi_dzt_final (one_file ''c.dzt'' recording_nan_scans) ''c.dzt'' (Fin 200) =
     ([File_read 1024, Print_identified 1, Print_header_params 1 16 NaN,
       File_seek_end, File_tell, File_seek 1024, Np_fromfile 2 1, Print_data_read,
       Print_traces 1 NaN],
      (Some \<lparr>shape = (1, 1), rows = [[- 1]]\<rparr>,
       Some \<lparr>samples_per_trace = 1, bits_per_sample = 16, scans_per_meter = NaN,
             trace_count = 1, total_length_m = NaN\<rparr>)) \<and>
   float_gt_zero (Fin 200) \<and>
   \<not> float_gt_zero
       (scans_per_meter \<lparr>samples_per_trace = 1, bits_per_sample = 16, scans_per_meter = NaN,
             trace_count = 1, total_length_m = NaN\<rparr>)"
  by (simp add: recording_nan_scans_result)


end
